theory Spec2Isabelle
  imports Main "HOL-Library.Code_Target_Numeral"
begin

section \<open>Strings\<close>

text \<open>
  A Python \<open>str\<close> is a sequence of Unicode code points; a code point is a natural
  number. \<open>asc\<close> writes an ASCII literal. Code points beyond ASCII are written as
  numbers (for example 12304 and 12305 for the lenticular brackets).
\<close>

type_synonym ustr = "nat list"

definition asc :: "string \<Rightarrow> ustr" where
  "asc s = map of_char s"

text \<open>
  \<open>str.isspace\<close>, which decides what \<open>str.strip()\<close> removes and what \<open>\s\<close> matches in
  a \<open>str\<close> pattern: the code points CPython lists as whitespace.
\<close>

definition py_isspace :: "nat \<Rightarrow> bool" where
  "py_isspace c \<longleftrightarrow>
     (9 \<le> c \<and> c \<le> 13) \<or> (28 \<le> c \<and> c \<le> 32) \<or> c = 133 \<or> c = 160 \<or> c = 5760 \<or>
     (8192 \<le> c \<and> c \<le> 8202) \<or> c = 8232 \<or> c = 8233 \<or> c = 8239 \<or> c = 8287 \<or> c = 12288"

text \<open>
  Digits are the ASCII digits \<open>0\<close> .. \<open>9\<close>. (Python's \<open>str.isdigit\<close>, \<open>\d\<close> and
  \<open>Decimal\<close> also accept the digits of other scripts; inputs holding such digits are
  outside this development.)
\<close>

definition is_digit :: "nat \<Rightarrow> bool" where
  "is_digit c \<longleftrightarrow> 48 \<le> c \<and> c \<le> 57"

definition lstrip :: "ustr \<Rightarrow> ustr" where
  "lstrip s = dropWhile py_isspace s"

definition strip :: "ustr \<Rightarrow> ustr" where
  "strip s = rev (dropWhile py_isspace (rev (dropWhile py_isspace s)))"

text \<open>\<open>s.rstrip(c)\<close> for a one-character argument.\<close>

definition rstrip_chr :: "nat \<Rightarrow> ustr \<Rightarrow> ustr" where
  "rstrip_chr c s = rev (dropWhile (\<lambda>d. d = c) (rev s))"

definition startswith :: "ustr \<Rightarrow> ustr \<Rightarrow> bool" where
  "startswith s p \<longleftrightarrow> take (length p) s = p"

definition endswith :: "ustr \<Rightarrow> ustr \<Rightarrow> bool" where
  "endswith s p \<longleftrightarrow> length p \<le> length s \<and> drop (length s - length p) s = p"

text \<open>\<open>sub in s\<close>: \<open>sub\<close> occurs in \<open>s\<close> as a contiguous substring.\<close>

fun contains :: "ustr \<Rightarrow> ustr \<Rightarrow> bool" where
  "contains sub [] \<longleftrightarrow> sub = []"
| "contains sub (c # cs) \<longleftrightarrow> startswith (c # cs) sub \<or> contains sub cs"

text \<open>\<open>str.isdigit()\<close>: non-empty and every character a digit.\<close>

definition isdigit :: "ustr \<Rightarrow> bool" where
  "isdigit s \<longleftrightarrow> s \<noteq> [] \<and> list_all is_digit s"

text \<open>\<open>str.lower()\<close> on the ASCII letters.\<close>

definition lower_chr :: "nat \<Rightarrow> nat" where
  "lower_chr c = (if 65 \<le> c \<and> c \<le> 90 then c + 32 else c)"

definition lower :: "ustr \<Rightarrow> ustr" where
  "lower s = map lower_chr s"

text \<open>\<open>s.split(c)\<close> for a one-character separator: the pieces between the separators.\<close>

fun split_chr :: "nat \<Rightarrow> ustr \<Rightarrow> ustr list" where
  "split_chr sep [] = [[]]"
| "split_chr sep (c # cs) =
     (if c = sep then [] # split_chr sep cs
      else (case split_chr sep cs of p # ps \<Rightarrow> (c # p) # ps | [] \<Rightarrow> [[c]]))"

text \<open>\<open>str(n)\<close> for a natural number: its decimal digits.\<close>

function show_nat :: "nat \<Rightarrow> ustr" where
  "show_nat n = (if n < 10 then [48 + n] else show_nat (n div 10) @ [48 + n mod 10])"
  by pat_completeness auto
termination
  by (relation "measure (\<lambda>n. n)") auto

declare show_nat.simps [simp del]

definition nat_of_digits :: "ustr \<Rightarrow> nat" where
  "nat_of_digits ds = foldl (\<lambda>a c. 10 * a + (c - 48)) 0 ds"

section \<open>Decimal values\<close>

text \<open>
  A finite \<open>decimal.Decimal\<close>, as \<open>as_tuple()\<close> shows it: a sign, a coefficient and an
  exponent; its value is \<open>(-1)^sign * coefficient * 10^exponent\<close>. The arithmetic
  context is the default one: precision 28, rounding half-even, \<open>Emin = -999999\<close>.
\<close>

record decimal =
  dsign :: bool
  dcoef :: nat
  dexp :: int

datatype error = InvalidOperation | ValueError | IndexError | KeyError ustr | ParseError

definition ndigits :: "nat \<Rightarrow> nat" where
  "ndigits n = length (show_nat n)"

definition context_prec :: nat where
  "context_prec = 28"

text \<open>Dropping \<open>k\<close> digits of a coefficient, the two rounding modes the code meets.\<close>

definition drop_half_up :: "nat \<Rightarrow> nat \<Rightarrow> nat" where
  "drop_half_up c k = (if 10 ^ k \<le> 2 * (c mod 10 ^ k) then c div 10 ^ k + 1 else c div 10 ^ k)"

definition drop_half_even :: "nat \<Rightarrow> nat \<Rightarrow> nat" where
  "drop_half_even c k =
     (let q = c div 10 ^ k; r = c mod 10 ^ k
      in if 10 ^ k < 2 * r \<or> (10 ^ k = 2 * r \<and> odd q) then q + 1 else q)"

text \<open>
  \<open>d.quantize(Decimal('1.' + '0' * n), rounding=ROUND_HALF_UP)\<close>: the value at exponent
  \<open>-n\<close>. \<open>InvalidOperation\<close> is raised when the target exponent is below \<open>Etiny\<close> or the
  result would need more than 28 digits; a zero keeps its sign.
\<close>

definition quantize :: "decimal \<Rightarrow> nat \<Rightarrow> error + decimal" where
  "quantize d n =
     (if 1000026 < n then Inl InvalidOperation
      else if dcoef d = 0 then Inr \<lparr>dsign = dsign d, dcoef = 0, dexp = - int n\<rparr>
      else if int context_prec < int (ndigits (dcoef d)) + dexp d + int n then Inl InvalidOperation
      else
        (let c = (if - int n \<le> dexp d then dcoef d * 10 ^ nat (dexp d + int n)
                  else drop_half_up (dcoef d) (nat (- int n - dexp d)))
         in if context_prec < ndigits c then Inl InvalidOperation
            else Inr \<lparr>dsign = dsign d, dcoef = c, dexp = - int n\<rparr>))"

text \<open>
  \<open>a - b\<close> in the default context: the exact difference, rounded half-even to 28
  significant digits when it has more.
\<close>

definition signed_coef :: "decimal \<Rightarrow> int \<Rightarrow> int" where
  "signed_coef d e = (if dsign d then - 1 else 1) * int (dcoef d) * 10 ^ nat (dexp d - e)"

definition dec_sub :: "decimal \<Rightarrow> decimal \<Rightarrow> decimal" where
  "dec_sub a b =
     (let e = min (dexp a) (dexp b);
          m = signed_coef a e - signed_coef b e;
          c = nat \<bar>m\<bar>;
          k = ndigits c - context_prec
      in \<lparr>dsign = (m < 0), dcoef = drop_half_even c k, dexp = e + int k\<rparr>)"

definition dec_abs :: "decimal \<Rightarrow> decimal" where
  "dec_abs d = d\<lparr>dsign := False\<rparr>"

text \<open>
  \<open>d < 1e-9\<close> for a non-negative \<open>d\<close>: Python compares a \<open>Decimal\<close> with the exact value
  of the \<open>float\<close>, and the double nearest to \<open>1e-9\<close> is \<open>4835703278458517 / 2^82\<close>.
\<close>

definition lt_1e_9 :: "decimal \<Rightarrow> bool" where
  "lt_1e_9 d \<longleftrightarrow>
     (if dsign d \<and> dcoef d \<noteq> 0 then True
      else if 0 \<le> dexp d then dcoef d * 10 ^ nat (dexp d) * 2 ^ 82 < 4835703278458517
      else dcoef d * 2 ^ 82 < 4835703278458517 * 10 ^ nat (- dexp d))"

text \<open>
  \<open>format(d, '.nf')\<close>: the value at exponent \<open>-n\<close> (rounded half-even when it has
  more places), written with its sign, an integer part and \<open>n\<close> fractional digits.
\<close>

definition zero_pad :: "nat \<Rightarrow> ustr \<Rightarrow> ustr" where
  "zero_pad n s = replicate (n - length s) 48 @ s"

definition format_f :: "decimal \<Rightarrow> nat \<Rightarrow> ustr" where
  "format_f d n =
     (let c = (if - int n \<le> dexp d then dcoef d * 10 ^ nat (dexp d + int n)
               else drop_half_even (dcoef d) (nat (- int n - dexp d)))
      in (if dsign d then [45] else []) @ show_nat (c div 10 ^ n) @
         (if n = 0 then [] else 46 # zero_pad n (show_nat (c mod 10 ^ n))))"

text \<open>
  \<open>str(int(d))\<close> for a decimal with a non-negative exponent. The conversion of an
  \<open>int\<close> to its decimal text raises \<open>ValueError\<close> when the number has more digits than
  \<open>sys.int_max_str_digits\<close>, which is 4300 unless the interpreter is told otherwise.
\<close>

definition int_max_str_digits :: nat where
  "int_max_str_digits = 4300"

definition str_int :: "decimal \<Rightarrow> error + ustr" where
  "str_int d =
     (let v = dcoef d * 10 ^ nat (dexp d)
      in if int_max_str_digits < ndigits v then Inl ValueError
         else Inr ((if dsign d \<and> v \<noteq> 0 then [45] else []) @ show_nat v))"

text \<open>\<open>r.rstrip('0').rstrip('.') if '.' in r else r\<close>.\<close>

definition strip_zeros :: "ustr \<Rightarrow> ustr" where
  "strip_zeros r = (if 46 \<in> set r then rstrip_chr 46 (rstrip_chr 48 r) else r)"

section \<open>Binary floating point\<close>

text \<open>
  The \<open>float\<close> operations of the host language are a parameter of the development:
  the conversion from a \<open>Decimal\<close>, the conversion from a string (which can raise
  \<open>ValueError\<close>), \<open>str\<close>, \<open>format(f, '.nf')\<close> and the test \<open>abs(a - b) < 1e-9\<close>.
  Every statement below holds for whatever these operations compute.
\<close>

record 'f float_ops =
  f_of_dec :: "decimal \<Rightarrow> 'f"
  f_of_str :: "ustr \<Rightarrow> 'f option"
  f_str :: "'f \<Rightarrow> ustr"
  f_fmt :: "nat \<Rightarrow> 'f \<Rightarrow> ustr"
  f_near :: "'f \<Rightarrow> 'f \<Rightarrow> bool"

section \<open>The numeric text normalizer: \<open>fix_float_precision\<close>\<close>

text \<open>
  The pattern \<open>^\s*[-+]?\d*\.?\d+\s*$\<close>. A match is a sign, the digits before the
  point and, when there is a point, the digits after it.
\<close>

definition float_pattern :: "ustr \<Rightarrow> (bool \<times> ustr \<times> ustr option) option" where
  "float_pattern s =
     (let s1 = dropWhile py_isspace s;
          neg = (s1 \<noteq> [] \<and> hd s1 = 45);
          s2 = (if s1 \<noteq> [] \<and> (hd s1 = 45 \<or> hd s1 = 43) then tl s1 else s1);
          ip = takeWhile is_digit s2;
          r1 = dropWhile is_digit s2
      in if ip \<noteq> [] \<and> list_all py_isspace r1 then Some (neg, ip, None)
         else if r1 \<noteq> [] \<and> hd r1 = 46 then
           (let fp = takeWhile is_digit (tl r1); r2 = dropWhile is_digit (tl r1)
            in if fp \<noteq> [] \<and> list_all py_isspace r2 then Some (neg, ip, Some fp) else None)
         else None)"

text \<open>\<open>Decimal(x)\<close> for a string the pattern has matched: the exact value of its digits.\<close>

definition Decimal :: "bool \<times> ustr \<times> ustr option \<Rightarrow> decimal" where
  "Decimal m =
     (case m of
        (neg, ip, None) \<Rightarrow> \<lparr>dsign = neg, dcoef = nat_of_digits ip, dexp = 0\<rparr>
      | (neg, ip, Some fp) \<Rightarrow>
          \<lparr>dsign = neg, dcoef = nat_of_digits (ip @ fp), dexp = - int (length fp)\<rparr>)"

text \<open>
  The test of the column name:
  \<open>column_name and (K in column_name or "total" in column_name.lower())\<close>, where \<open>K\<close>
  is the two-character word for a total (code points 21512, 35745).
\<close>

definition is_total_column :: "ustr option \<Rightarrow> bool" where
  "is_total_column column_name =
     (case column_name of
        None \<Rightarrow> False
      | Some c \<Rightarrow> c \<noteq> [] \<and> (contains [21512, 35745] c \<or> contains (asc ''total'') (lower c)))"

text \<open>The loop over \<open>range(2, 7)\<close> for a total column.\<close>

fun total_places :: "decimal \<Rightarrow> nat list \<Rightarrow> error + ustr option" where
  "total_places dec_value [] = Inr None"
| "total_places dec_value (dec_places # rest) =
     (case quantize dec_value dec_places of
        Inl e \<Rightarrow> Inl e
      | Inr quantized \<Rightarrow>
          if lt_1e_9 (dec_abs (dec_sub quantized dec_value))
          then Inr (Some (strip_zeros (format_f quantized dec_places)))
          else total_places dec_value rest)"

text \<open>Method 1: the number of fractional digits of the input, trailing zeros not counted.\<close>

definition orig_places :: "ustr \<Rightarrow> decimal \<Rightarrow> error + ustr option" where
  "orig_places x dec_value =
     (if 46 \<in> set x then
        (case split_chr 46 x of
           _ # orig_dec_part # _ \<Rightarrow>
             (let orig_dec_places = length (rstrip_chr 48 orig_dec_part)
              in if 0 < orig_dec_places then
                   (case quantize dec_value orig_dec_places of
                      Inl e \<Rightarrow> Inl e
                    | Inr quantized \<Rightarrow> Inr (Some (strip_zeros (format_f quantized orig_dec_places))))
                 else Inr None)
         | _ \<Rightarrow> Inl IndexError)
      else Inr None)"

text \<open>Method 2: the loop over \<open>range(1, 10)\<close> on the float.\<close>

fun float_places :: "'f float_ops \<Rightarrow> 'f \<Rightarrow> nat list \<Rightarrow> error + ustr option" where
  "float_places fo float_val [] = Inr None"
| "float_places fo float_val (dec_places # rest) =
     (let formatted = f_fmt fo dec_places float_val
      in case f_of_str fo formatted of
           None \<Rightarrow> Inl ValueError
         | Some g \<Rightarrow>
             if f_near fo g float_val then Inr (Some (strip_zeros formatted))
             else float_places fo float_val rest)"

text \<open>The body of the \<open>try\<close> block; \<open>Inl\<close> is an exception raised inside it.\<close>

definition try_body :: "'f float_ops \<Rightarrow> ustr \<Rightarrow> bool \<times> ustr \<times> ustr option \<Rightarrow> ustr option \<Rightarrow> error + ustr" where
  "try_body fo x m column_name =
     (let dec_value = Decimal m
      in if 0 \<le> dexp dec_value then str_int dec_value
         else
           (let float_val = f_of_dec fo dec_value;
                float_str = f_str fo float_val
            in case (if is_total_column column_name then total_places dec_value [2..<7] else Inr None) of
                 Inl e \<Rightarrow> Inl e
               | Inr (Some r) \<Rightarrow> Inr r
               | Inr None \<Rightarrow>
                   if contains (asc ''999999'') float_str \<or> contains (asc ''000000'') float_str then
                     (case orig_places x dec_value of
                        Inl e \<Rightarrow> Inl e
                      | Inr (Some r) \<Rightarrow> Inr r
                      | Inr None \<Rightarrow>
                          (case float_places fo float_val [1..<10] of
                             Inl e \<Rightarrow> Inl e
                           | Inr (Some r) \<Rightarrow> Inr r
                           | Inr None \<Rightarrow> Inr x))
                   else Inr x))"

text \<open>
  The handler of the \<open>try\<close> block, itself a \<open>try\<close> with a bare \<open>except\<close>: the float of
  \<open>x\<close> at six places, zeros and point stripped; \<open>x\<close> when that raises.
\<close>

definition fallback :: "'f float_ops \<Rightarrow> ustr \<Rightarrow> error + ustr" where
  "fallback fo x =
     (case (case f_of_str fo x of
              None \<Rightarrow> Inl ValueError
            | Some float_val \<Rightarrow> Inr (strip_zeros (f_fmt fo 6 float_val))) of
        Inl e \<Rightarrow> Inr x
      | Inr r \<Rightarrow> Inr r)"

text \<open>
  The function. Its result is \<open>Inr\<close> the string it returns, or \<open>Inl\<close> an exception that
  leaves it. The argument is a \<open>str\<close>, so the test \<open>not isinstance(x, str)\<close> is false.
\<close>

definition fix_float_precision :: "'f float_ops \<Rightarrow> ustr \<Rightarrow> ustr option \<Rightarrow> error + ustr" where
  "fix_float_precision fo x0 column_name =
     (if x0 = [] then Inr x0
      else
        (let x = strip x0
         in if x = [] then Inr []
            else if isdigit x then Inr x
            else
              (case float_pattern x of
                 None \<Rightarrow> Inr x
               | Some m \<Rightarrow>
                   (case try_body fo x m column_name of
                      Inr r \<Rightarrow> Inr r
                    | Inl e \<Rightarrow> fallback fo x))))"


section \<open>Cleaning text and file names\<close>

text \<open>
  \<open>unicodedata.normalize("NFKC", text)\<close> is a parameter, \<open>nfkc\<close>. The two substitutions
  of \<open>clean_text\<close> follow it: the characters U+00A0 and U+2002 .. U+200B become a space,
  and every run of whitespace becomes one space. The argument is a \<open>str\<close>.
\<close>

definition special_space :: "nat \<Rightarrow> bool" where
  "special_space c \<longleftrightarrow> c = 160 \<or> (8194 \<le> c \<and> c \<le> 8203)"

function collapse_spaces :: "ustr \<Rightarrow> ustr" where
  "collapse_spaces [] = []"
| "collapse_spaces (c # cs) =
     (if py_isspace c then 32 # collapse_spaces (dropWhile py_isspace cs)
      else c # collapse_spaces cs)"
  by pat_completeness auto
termination
  by (relation "measure length") (auto simp: length_dropWhile_le less_Suc_eq_le)

definition clean_text :: "(ustr \<Rightarrow> ustr) \<Rightarrow> ustr \<Rightarrow> ustr" where
  "clean_text nfkc t =
     collapse_spaces (map (\<lambda>c. if special_space c then 32 else c) (nfkc (strip t)))"

text \<open>\<open>clean_filename\<close>: each of \<open>\ / : * ? " < > |\<close> becomes an underscore.\<close>

definition clean_filename :: "ustr \<Rightarrow> ustr" where
  "clean_filename filename =
     map (\<lambda>c. if c \<in> set [92, 47, 58, 42, 63, 34, 60, 62, 124] then 95 else c) filename"

section \<open>Replacement patterns: \<open>precompute_replace_patterns\<close>\<close>

text \<open>
  A rule is a keyword and a column name. A row of the sheet maps column names to
  values, which are strings; \<open>excel_row[col_name]\<close> raises \<open>KeyError\<close> for a column
  the row does not have. A pattern is the tuple (keyword, column name, cleaned keyword,
  replacement). The scope is the value of the radio button: one of the two strings
  below.
\<close>

type_synonym rule = "ustr \<times> ustr"

type_synonym row = "(ustr \<times> ustr) list"

type_synonym pattern = "ustr \<times> ustr \<times> ustr \<times> ustr"

definition scope_full_keyword :: ustr where
  "scope_full_keyword = [26367, 25442, 23436, 25972, 20851, 38190, 35789]"

definition scope_bracket_content :: ustr where
  "scope_bracket_content = [20165, 26367, 25442, 25324, 21495, 20869, 20869, 23481]"

definition row_get :: "row \<Rightarrow> ustr \<Rightarrow> error + ustr" where
  "row_get excel_row col_name =
     (case map_of excel_row col_name of None \<Rightarrow> Inl (KeyError col_name) | Some v \<Rightarrow> Inr v)"

text \<open>
  The pattern of one rule, given the value of its column. The bracket pairs are tried in
  the order of the source: U+3010/U+3011, U+FF08/U+FF09, the ASCII parentheses,
  U+3014/U+3015.
\<close>

definition rule_pattern :: "(ustr \<Rightarrow> ustr) \<Rightarrow> ustr \<Rightarrow> rule \<Rightarrow> ustr \<Rightarrow> pattern" where
  "rule_pattern nfkc replace_scope r replacement =
     (let old_text = fst r; col_name = snd r; cleaned_text = clean_text nfkc old_text
      in if replace_scope = scope_bracket_content then
           (if startswith cleaned_text [12304] \<and> endswith cleaned_text [12305]
              then (old_text, col_name, cleaned_text, [12304] @ replacement @ [12305])
            else if startswith cleaned_text [65288] \<and> endswith cleaned_text [65289]
              then (old_text, col_name, cleaned_text, [65288] @ replacement @ [65289])
            else if startswith cleaned_text [40] \<and> endswith cleaned_text [41]
              then (old_text, col_name, cleaned_text, [40] @ replacement @ [41])
            else if startswith cleaned_text [12308] \<and> endswith cleaned_text [12309]
              then (old_text, col_name, cleaned_text, [12308] @ replacement @ [12309])
            else (old_text, col_name, cleaned_text, replacement))
         else (old_text, col_name, cleaned_text, replacement))"

fun precompute_replace_patterns ::
  "(ustr \<Rightarrow> ustr) \<Rightarrow> ustr \<Rightarrow> rule list \<Rightarrow> row \<Rightarrow> error + pattern list" where
  "precompute_replace_patterns nfkc replace_scope [] excel_row = Inr []"
| "precompute_replace_patterns nfkc replace_scope (r # rules) excel_row =
     (case row_get excel_row (snd r) of
        Inl e \<Rightarrow> Inl e
      | Inr replacement \<Rightarrow>
          (case precompute_replace_patterns nfkc replace_scope rules excel_row of
             Inl e \<Rightarrow> Inl e
           | Inr replace_patterns \<Rightarrow>
               Inr (rule_pattern nfkc replace_scope r replacement # replace_patterns)))"

section \<open>Paragraphs: \<open>process_paragraph\<close>\<close>

text \<open>
  A paragraph is a sequence of runs and hyperlinks. A run has a text and a style, which
  the code never reads; of a hyperlink only the text matters, which the code never
  writes. \<open>paragraph.text\<close> is the concatenation of the texts of the runs and of the
  hyperlinks, in their order (python-docx 1.0 and later); \<open>paragraph.runs\<close> are the
  runs alone.
\<close>

record 's run =
  run_text :: ustr
  run_style :: 's

datatype 's item = Run "'s run" | Hyperlink ustr

type_synonym 's para = "'s item list"

definition item_text :: "'s item \<Rightarrow> ustr" where
  "item_text i = (case i of Run r \<Rightarrow> run_text r | Hyperlink t \<Rightarrow> t)"

definition para_text :: "'s para \<Rightarrow> ustr" where
  "para_text par = concat (map item_text par)"

definition runs :: "'s para \<Rightarrow> 's run list" where
  "runs par = concat (map (\<lambda>i. case i of Run r \<Rightarrow> [r] | Hyperlink t \<Rightarrow> []) par)"

definition links :: "'s para \<Rightarrow> ustr list" where
  "links par = concat (map (\<lambda>i. case i of Run r \<Rightarrow> [] | Hyperlink t \<Rightarrow> [t]) par)"

text \<open>
  \<open>s.replace(old, new)\<close>: every occurrence of \<open>old\<close>, left to right and without overlap;
  for an empty \<open>old\<close>, \<open>new\<close> before every character and at the end.
\<close>

fun replace_nonempty :: "ustr \<Rightarrow> ustr \<Rightarrow> ustr \<Rightarrow> ustr" where
  "replace_nonempty old new [] = []"
| "replace_nonempty old new (c # cs) =
     (if startswith (c # cs) old
      then new @ replace_nonempty old new (drop (length old - 1) cs)
      else c # replace_nonempty old new cs)"

definition py_replace :: "ustr \<Rightarrow> ustr \<Rightarrow> ustr \<Rightarrow> ustr" where
  "py_replace old new s =
     (if old = [] then new @ concat (map (\<lambda>c. c # new) s) else replace_nonempty old new s)"

text \<open>
  The counts are a \<open>defaultdict(int)\<close> keyed by (keyword, column name); a dictionary
  keeps the order in which its keys were first stored. \<open>bump k n d\<close> is \<open>d[k] += n\<close>.
\<close>

type_synonym counts = "((ustr \<times> ustr) \<times> nat) list"

fun bump :: "ustr \<times> ustr \<Rightarrow> nat \<Rightarrow> counts \<Rightarrow> counts" where
  "bump k n [] = [(k, n)]"
| "bump k n (kv # d) = (if fst kv = k then (k, snd kv + n) # d else kv # bump k n d)"

definition count_of :: "counts \<Rightarrow> ustr \<times> ustr \<Rightarrow> nat" where
  "count_of d k = (case map_of d k of None \<Rightarrow> 0 | Some n \<Rightarrow> n)"

text \<open>The first loop: does the cleaned paragraph hold the cleaned keyword of some pattern?\<close>

definition has_keyword :: "pattern list \<Rightarrow> ustr \<Rightarrow> bool" where
  "has_keyword replace_patterns cleaned_para \<longleftrightarrow>
     list_ex (\<lambda>(old_text, col_name, format_keyword, replacement).
                contains format_keyword cleaned_para) replace_patterns"

text \<open>
  The second loop: for each pattern whose keyword is in the cleaned paragraph, the
  replacement is made in the working text and the count of the pattern goes up by one.
\<close>

fun apply_patterns :: "ustr \<Rightarrow> pattern list \<Rightarrow> ustr \<times> counts \<Rightarrow> ustr \<times> counts" where
  "apply_patterns cleaned_para [] acc = acc"
| "apply_patterns cleaned_para ((old_text, col_name, format_keyword, replacement) # ps) acc =
     (if contains format_keyword cleaned_para
      then apply_patterns cleaned_para ps
             (py_replace format_keyword replacement (fst acc), bump (old_text, col_name) 1 (snd acc))
      else apply_patterns cleaned_para ps acc)"

text \<open>
  \<open>runs[0].text = new_text\<close> and \<open>runs[i].text = ''\<close> for the other runs, when there is
  a run: the first run gets the new text, the runs after it are emptied, and the
  hyperlinks stay as they are.
\<close>

fun clear_runs :: "'s para \<Rightarrow> 's para" where
  "clear_runs [] = []"
| "clear_runs (Run r # rest) = Run (r\<lparr>run_text := []\<rparr>) # clear_runs rest"
| "clear_runs (Hyperlink t # rest) = Hyperlink t # clear_runs rest"

fun set_runs :: "ustr \<Rightarrow> 's para \<Rightarrow> 's para" where
  "set_runs new_text [] = []"
| "set_runs new_text (Run r # rest) = Run (r\<lparr>run_text := new_text\<rparr>) # clear_runs rest"
| "set_runs new_text (Hyperlink t # rest) = Hyperlink t # set_runs new_text rest"

text \<open>The paragraph after the call, and the counts the call returns.\<close>

definition process_paragraph ::
  "(ustr \<Rightarrow> ustr) \<Rightarrow> 's para \<Rightarrow> pattern list \<Rightarrow> ustr option \<Rightarrow> 's para \<times> counts" where
  "process_paragraph nfkc par replace_patterns cleaned_para_arg =
     (let para_txt = para_text par;
          cleaned_para = (case cleaned_para_arg of None \<Rightarrow> clean_text nfkc para_txt | Some c \<Rightarrow> c)
      in if has_keyword replace_patterns cleaned_para then
           (let r = apply_patterns cleaned_para replace_patterns (para_txt, [])
            in (set_runs (fst r) par, snd r))
         else (par, []))"

section \<open>Documents: \<open>replace_word_with_format\<close>\<close>

text \<open>
  A document has paragraphs and tables. A table has its cells, each with paragraphs,
  and its rows: \<open>row.cells\<close> has one entry for each column of the grid, and a merged cell
  is the same cell at several entries (of one row, or of several rows). So a row is a
  list of positions in the list of the cells of the table, and what the loop does to a
  cell at one entry is seen at the other entries of that cell. What the libraries do is
  a parameter, the host: the normal form NFKC, the reading of a document from bytes
  (which can raise), its writing to bytes, the text of an exception with its traceback,
  and \<open>hash\<close> on a tuple of rules.
\<close>

record 's table =
  tbl_cells :: "'s para list list"
  tbl_rows :: "nat list list"

record 's document =
  paragraphs :: "'s para list"
  tables :: "'s table list"

record 's host =
  h_nfkc :: "ustr \<Rightarrow> ustr"
  h_load :: "nat list \<Rightarrow> 's document option"
  h_save :: "'s document \<Rightarrow> nat list"
  h_exc_text :: "error \<Rightarrow> ustr"
  h_hash :: "rule list \<Rightarrow> int"

record word_file =
  wf_name :: ustr
  wf_bytes :: "nat list"

text \<open>A loop that rewrites each element of a list and carries the counts along.\<close>

fun map_accum :: "('a \<Rightarrow> 'c \<Rightarrow> 'a \<times> 'c) \<Rightarrow> 'a list \<Rightarrow> 'c \<Rightarrow> 'a list \<times> 'c" where
  "map_accum f [] c = ([], c)"
| "map_accum f (x # xs) c =
     (let r = f x c; rs = map_accum f xs (snd r) in (fst r # fst rs, snd rs))"

text \<open>\<open>for key, count in para_count.items(): replace_count[key] += count\<close>.\<close>

definition merge_counts :: "counts \<Rightarrow> counts \<Rightarrow> counts" where
  "merge_counts replace_count para_count =
     foldl (\<lambda>d kv. bump (fst kv) (snd kv) d) replace_count para_count"

definition process_one :: "(ustr \<Rightarrow> ustr) \<Rightarrow> pattern list \<Rightarrow> 's para \<Rightarrow> counts \<Rightarrow> 's para \<times> counts" where
  "process_one nfkc replace_patterns par replace_count =
     (let r = process_paragraph nfkc par replace_patterns None
      in (fst r, merge_counts replace_count (snd r)))"

definition process_paragraphs ::
  "(ustr \<Rightarrow> ustr) \<Rightarrow> pattern list \<Rightarrow> 's para list \<Rightarrow> counts \<Rightarrow> 's para list \<times> counts" where
  "process_paragraphs nfkc replace_patterns = map_accum (process_one nfkc replace_patterns)"

text \<open>
  The loops over the rows of a table and the cells of a row: the entries are visited in
  order, and at each entry the paragraphs of the cell found there are processed as they
  are then. (An entry is a position in the list of cells; a document that was read has
  no entry outside it.)
\<close>

definition process_cell ::
  "(ustr \<Rightarrow> ustr) \<Rightarrow> pattern list \<Rightarrow> 's para list list \<times> counts \<Rightarrow> nat \<Rightarrow>
   's para list list \<times> counts" where
  "process_cell nfkc replace_patterns acc i =
     (if i < length (fst acc) then
        (let r = process_paragraphs nfkc replace_patterns (fst acc ! i) (snd acc)
         in ((fst acc)[i := fst r], snd r))
      else acc)"

definition process_table ::
  "(ustr \<Rightarrow> ustr) \<Rightarrow> pattern list \<Rightarrow> 's table \<Rightarrow> counts \<Rightarrow> 's table \<times> counts" where
  "process_table nfkc replace_patterns t replace_count =
     (let r = foldl (process_cell nfkc replace_patterns) (tbl_cells t, replace_count)
                (concat (tbl_rows t))
      in (t\<lparr>tbl_cells := fst r\<rparr>, snd r))"

definition process_tables ::
  "(ustr \<Rightarrow> ustr) \<Rightarrow> pattern list \<Rightarrow> 's table list \<Rightarrow> counts \<Rightarrow> 's table list \<times> counts" where
  "process_tables nfkc replace_patterns = map_accum (process_table nfkc replace_patterns)"

text \<open>The log: one line for each key of the counts, or the line that says nothing was found.\<close>

definition msg_replaced :: ustr where
  "msg_replaced = [26367, 25442, 25104, 21151, 58, 32]"

definition msg_not_found :: ustr where
  "msg_not_found = [26410, 25214, 21040, 38656, 35201, 26367, 25442, 30340, 20851, 38190, 23383]"

definition msg_failed :: ustr where
  "msg_failed = [26367, 25442, 22833, 36133, 58, 32]"

fun log_lines :: "row \<Rightarrow> counts \<Rightarrow> error + ustr list" where
  "log_lines excel_row [] = Inr []"
| "log_lines excel_row (kv # rest) =
     (case row_get excel_row (snd (fst kv)) of
        Inl e \<Rightarrow> Inl e
      | Inr v \<Rightarrow>
          (case log_lines excel_row rest of
             Inl e \<Rightarrow> Inl e
           | Inr ls \<Rightarrow>
               Inr ((msg_replaced @ fst (fst kv) @ asc '' -> '' @ v @ asc '' ('' @
                     show_nat (snd kv) @ [27425, 41]) # ls)))"

fun join_lines :: "ustr list \<Rightarrow> ustr" where
  "join_lines [] = []"
| "join_lines [l] = l"
| "join_lines (l # ls) = l @ [10] @ join_lines ls"

text \<open>The body of the \<open>try\<close> block of \<open>replace_word_with_format\<close>.\<close>

definition replace_try ::
  "'s host \<Rightarrow> ustr \<Rightarrow> word_file \<Rightarrow> row \<Rightarrow> rule list \<Rightarrow> error + (nat list \<times> ustr)" where
  "replace_try h replace_scope word_file excel_row replace_rules =
     (case h_load h (wf_bytes word_file) of
        None \<Rightarrow> Inl ParseError
      | Some doc \<Rightarrow>
          (case precompute_replace_patterns (h_nfkc h) replace_scope replace_rules excel_row of
             Inl e \<Rightarrow> Inl e
           | Inr replace_patterns \<Rightarrow>
               (let r1 = process_paragraphs (h_nfkc h) replace_patterns (paragraphs doc) [];
                    r2 = process_tables (h_nfkc h) replace_patterns (tables doc) (snd r1);
                    output_file = h_save h (doc\<lparr>paragraphs := fst r1, tables := fst r2\<rparr>);
                    replace_count = snd r2
                in case (if replace_count \<noteq> [] then
                           (case log_lines excel_row replace_count of
                              Inl e \<Rightarrow> Inl e
                            | Inr ls \<Rightarrow> Inr (join_lines ls))
                         else Inr msg_not_found) of
                     Inl e \<Rightarrow> Inl e
                   | Inr replace_log \<Rightarrow> Inr (output_file, replace_log))))"

text \<open>The function: on any exception, an empty file and the log of the failure.\<close>

definition replace_word_with_format ::
  "'s host \<Rightarrow> ustr \<Rightarrow> word_file \<Rightarrow> row \<Rightarrow> rule list \<Rightarrow> nat list \<times> ustr" where
  "replace_word_with_format h replace_scope word_file excel_row replace_rules =
     (case replace_try h replace_scope word_file excel_row replace_rules of
        Inr r \<Rightarrow> r
      | Inl e \<Rightarrow> ([], msg_failed @ h_exc_text h e))"

section \<open>The batch: the session, its parameters and the handler of the button\<close>

text \<open>
  The sheet is a \<open>DataFrame\<close>: the names of its columns and, for each row, the values
  under those columns. \<open>excel_df.iloc[i]\<close> is the row \<open>i\<close> with the names of the columns
  as its index, so every row of a sheet has the same columns.
\<close>

record dataframe =
  df_columns :: "ustr list"
  df_values :: "ustr list list"

definition df_len :: "dataframe \<Rightarrow> nat" where
  "df_len excel_df = length (df_values excel_df)"

definition df_row :: "dataframe \<Rightarrow> nat \<Rightarrow> row" where
  "df_row excel_df i = zip (df_columns excel_df) (df_values excel_df ! i)"

definition rectangular :: "dataframe \<Rightarrow> bool" where
  "rectangular excel_df \<longleftrightarrow>
     (\<forall>vs \<in> set (df_values excel_df). length vs = length (df_columns excel_df))"

record replaced_file =
  filename :: ustr
  data :: "nat list"
  row_idx :: int
  log :: ustr

text \<open>The dictionary that \<open>get_replace_params\<close> returns, one field for each key.\<close>

record replace_params =
  p_word_filename :: ustr
  p_excel_rows :: nat
  p_start_row :: int
  p_end_row :: int
  p_file_name_col :: ustr
  p_file_prefix :: ustr
  p_file_suffix :: ustr
  p_rule_count :: nat
  p_rule_hash :: int

text \<open>
  The session state. \<open>replace_params\<close> starts as the empty dictionary, which is \<open>None\<close>
  here.
\<close>

record session =
  replace_rules :: "rule list"
  replaced_files :: "replaced_file list"
  replace_log :: "ustr list"
  is_replacing :: bool
  clear_input :: bool
  replace_params :: "replace_params option"
  replace_scope :: ustr

definition get_replace_params ::
  "'s host \<Rightarrow> session \<Rightarrow> word_file option \<Rightarrow> dataframe option \<Rightarrow> int \<Rightarrow> int \<Rightarrow> ustr \<Rightarrow> ustr \<Rightarrow> ustr \<Rightarrow>
   replace_params" where
  "get_replace_params h st word_file excel_df start_row end_row file_name_col file_prefix file_suffix =
     \<lparr>p_word_filename = (case word_file of Some w \<Rightarrow> wf_name w | None \<Rightarrow> []),
      p_excel_rows = (case excel_df of Some df \<Rightarrow> df_len df | None \<Rightarrow> 0),
      p_start_row = start_row,
      p_end_row = end_row,
      p_file_name_col = file_name_col,
      p_file_prefix = file_prefix,
      p_file_suffix = file_suffix,
      p_rule_count = length (replace_rules st),
      p_rule_hash = h_hash h (replace_rules st)\<rparr>"

definition need_replace :: "session \<Rightarrow> replace_params \<Rightarrow> bool" where
  "need_replace st current_params \<longleftrightarrow>
     length (replaced_files st) = 0 \<or> replace_params st \<noteq> Some current_params"

text \<open>\<open>excel_df.iloc[row_idx]\<close>: a negative index counts from the end.\<close>

definition iloc :: "dataframe \<Rightarrow> int \<Rightarrow> error + row" where
  "iloc excel_df i =
     (let n = int (df_len excel_df)
      in if 0 \<le> i \<and> i < n then Inr (df_row excel_df (nat i))
         else if - n \<le> i \<and> i < 0 then Inr (df_row excel_df (nat (n + i)))
         else Inl IndexError)"

definition show_int :: "int \<Rightarrow> ustr" where
  "show_int i = (if i < 0 then 45 # show_nat (nat (- i)) else show_nat (nat i))"

text \<open>The name of the file of one row.\<close>

definition msg_result :: ustr where
  "msg_result = [26367, 25442, 32467, 26524, 95]"

definition make_filename :: "(ustr \<Rightarrow> ustr) \<Rightarrow> row \<Rightarrow> ustr \<Rightarrow> ustr \<Rightarrow> ustr \<Rightarrow> int \<Rightarrow> ustr" where
  "make_filename nfkc excel_row file_name_col file_prefix file_suffix idx =
     clean_filename
       (case (if file_name_col \<noteq> [] then map_of excel_row file_name_col else None) of
          Some v \<Rightarrow>
            (let base_name = clean_text nfkc v
             in if file_prefix \<noteq> [] \<and> file_suffix \<noteq> [] then file_prefix @ base_name @ file_suffix @ asc ''.docx''
                else if file_prefix \<noteq> [] then file_prefix @ base_name @ asc ''.docx''
                else if file_suffix \<noteq> [] then base_name @ file_suffix @ asc ''.docx''
                else base_name @ asc ''.docx'')
        | None \<Rightarrow>
            (let num = show_int (idx + 1)
             in if file_prefix \<noteq> [] \<and> file_suffix \<noteq> [] then file_prefix @ msg_result @ num @ file_suffix @ asc ''.docx''
                else if file_prefix \<noteq> [] then file_prefix @ msg_result @ num @ asc ''.docx''
                else if file_suffix \<noteq> [] then msg_result @ num @ file_suffix @ asc ''.docx''
                else msg_result @ num @ asc ''.docx''))"

text \<open>The body of the loop, for a row that was read: the file and the line of the log.\<close>

definition make_file ::
  "'s host \<Rightarrow> ustr \<Rightarrow> rule list \<Rightarrow> word_file \<Rightarrow> ustr \<Rightarrow> ustr \<Rightarrow> ustr \<Rightarrow> int \<Rightarrow> row \<Rightarrow> replaced_file" where
  "make_file h scope rules word_file file_name_col file_prefix file_suffix idx excel_row =
     (let r = replace_word_with_format h scope word_file excel_row rules
      in \<lparr>filename = make_filename (h_nfkc h) excel_row file_name_col file_prefix file_suffix idx,
          data = fst r, row_idx = idx, log = snd r\<rparr>)"

definition log_entry :: "replaced_file \<Rightarrow> ustr" where
  "log_entry f = [31532] @ show_int (row_idx f + 1) @ [34892, 65306] @ log f"

text \<open>
  The loop over the row numbers. An exception in its body (only \<open>iloc\<close> can raise one)
  ends the loop; the files appended so far stay in the session.
\<close>

fun row_loop ::
  "'s host \<Rightarrow> ustr \<Rightarrow> rule list \<Rightarrow> word_file \<Rightarrow> dataframe \<Rightarrow> ustr \<Rightarrow> ustr \<Rightarrow> ustr \<Rightarrow> int list \<Rightarrow>
   replaced_file list \<times> ustr list \<Rightarrow> (replaced_file list \<times> ustr list) \<times> error option" where
  "row_loop h scope rules word_file excel_df file_name_col file_prefix file_suffix [] acc = (acc, None)"
| "row_loop h scope rules word_file excel_df file_name_col file_prefix file_suffix (idx # rest) acc =
     (case iloc excel_df idx of
        Inl e \<Rightarrow> (acc, Some e)
      | Inr excel_row \<Rightarrow>
          (let f = make_file h scope rules word_file file_name_col file_prefix file_suffix idx excel_row
           in row_loop h scope rules word_file excel_df file_name_col file_prefix file_suffix rest
                (fst acc @ [f], snd acc @ [log_entry f])))"

text \<open>
  The handler, once the button has been pressed and no replacement is running. The
  parameters are stored only when the loop has ended without an exception.
\<close>

definition run_replace ::
  "'s host \<Rightarrow> session \<Rightarrow> word_file \<Rightarrow> dataframe \<Rightarrow> int \<Rightarrow> int \<Rightarrow> ustr \<Rightarrow> ustr \<Rightarrow> ustr \<Rightarrow> session" where
  "run_replace h st word_file excel_df start_row end_row file_name_col file_prefix file_suffix =
     (let current_params =
            get_replace_params h st (Some word_file) (Some excel_df) start_row end_row
              file_name_col file_prefix file_suffix;
          r = row_loop h (replace_scope st) (replace_rules st) word_file excel_df
                file_name_col file_prefix file_suffix
                [start_row - 1 .. min end_row (int (df_len excel_df)) - 1] ([], []);
          st2 = st\<lparr>replaced_files := fst (fst r), replace_log := snd (fst r)\<rparr>
      in (case snd r of
            None \<Rightarrow> st2\<lparr>replace_params := Some current_params\<rparr>
          | Some e \<Rightarrow> st2)\<lparr>is_replacing := False\<rparr>)"

text \<open>
  The two row numbers come from \<open>st.number_input\<close> widgets with \<open>min_value=1\<close> and
  \<open>max_value=len(excel_df)\<close>: a row number that the handler receives is within these
  bounds.
\<close>

definition row_number_input :: "dataframe \<Rightarrow> int \<Rightarrow> bool" where
  "row_number_input excel_df v \<longleftrightarrow> 1 \<le> v \<and> v \<le> int (df_len excel_df)"

text \<open>
  The button is enabled when there are a document, a sheet and a rule, no replacement
  is running and the first row is not after the last; pressing a disabled button does
  nothing.
\<close>

definition replace_button ::
  "'s host \<Rightarrow> session \<Rightarrow> word_file option \<Rightarrow> dataframe option \<Rightarrow> int \<Rightarrow> int \<Rightarrow> ustr \<Rightarrow> ustr \<Rightarrow> ustr \<Rightarrow>
   session" where
  "replace_button h st word_file excel_df start_row end_row file_name_col file_prefix file_suffix =
     (case (word_file, excel_df) of
        (Some w, Some df) \<Rightarrow>
          if replace_rules st \<noteq> [] \<and> \<not> is_replacing st \<and> start_row \<le> end_row
          then run_replace h st w df start_row end_row file_name_col file_prefix file_suffix
          else st
      | _ \<Rightarrow> st)"

section \<open>A small host\<close>

text \<open>
  A host to exhibit the hypotheses of the theorems at concrete inputs: the bytes of a
  file are the text of a document of one paragraph with one run, and writing a document
  gives the texts of its paragraphs back. Its \<open>h_nfkc\<close> is the identity, as NFKC is on
  the texts used with it.
\<close>

definition plain_host :: "unit host" where
  "plain_host =
     \<lparr>h_nfkc = (\<lambda>t. t),
      h_load = (\<lambda>b. Some \<lparr>paragraphs = [[Run \<lparr>run_text = b, run_style = ()\<rparr>]], tables = []\<rparr>),
      h_save = (\<lambda>d. concat (map para_text (paragraphs d))),
      h_exc_text = (\<lambda>e. case e of KeyError c \<Rightarrow> c | _ \<Rightarrow> []),
      h_hash = (\<lambda>rs. int (length rs))\<rparr>"

text \<open>
  A variant whose \<open>h_nfkc\<close> turns the fullwidth colon U+FF1A into a colon, as NFKC
  does, and a session with one rule on the column \<open>name\<close>, a template, a sheet of three
  rows that has the column, and a sheet of two rows that does not have it.
\<close>

definition colon_nfkc :: "ustr \<Rightarrow> ustr" where
  "colon_nfkc t = map (\<lambda>c. if c = 65306 then 58 else c) t"

definition demo_session :: session where
  "demo_session =
     \<lparr>replace_rules = [(asc ''N'', asc ''name'')], replaced_files = [], replace_log = [],
      is_replacing = False, clear_input = False, replace_params = None,
      replace_scope = scope_full_keyword\<rparr>"

definition demo_file :: word_file where
  "demo_file = \<lparr>wf_name = asc ''t.docx'', wf_bytes = asc ''Dear N''\<rparr>"

definition demo_sheet :: dataframe where
  "demo_sheet =
     \<lparr>df_columns = [asc ''name'', asc ''city''],
      df_values = [[asc ''Ann'', asc ''Rome''], [asc ''Bob'', asc ''Oslo''], [asc ''Cy'', asc ''Bern'']]\<rparr>"

definition other_sheet :: dataframe where
  "other_sheet =
     \<lparr>df_columns = [asc ''city''], df_values = [[asc ''Rome''], [asc ''Oslo'']]\<rparr>"

text \<open>
  Floats with the single value infinity: what Python's operations give on a number past
  the range of a double (\<open>float\<close> of its text is \<open>inf\<close>, and \<open>inf\<close> is its text in every
  format).
\<close>

definition inf_float :: "unit float_ops" where
  "inf_float =
     \<lparr>f_of_dec = (\<lambda>d. ()), f_of_str = (\<lambda>x. Some ()), f_str = (\<lambda>f. asc ''inf''),
      f_fmt = (\<lambda>n f. asc ''inf''), f_near = (\<lambda>a b. False)\<rparr>"

text \<open>The digits of a number too long for \<open>str\<close>: 4301 ones.\<close>

definition long_ones :: ustr where
  "long_ones = replicate (Suc 4300) 49"

section \<open>Properties of the normalizer\<close>

subsection \<open>The example of the docstring\<close>

lemma example_strip: "strip (asc ''0.48729999999999996'') = asc ''0.48729999999999996''"
  by code_simp

lemma example_pattern:
  "float_pattern (asc ''0.48729999999999996'') =
     Some (False, asc ''0'', Some (asc ''48729999999999996''))"
  by code_simp

lemma example_orig_places:
  "orig_places (asc ''0.48729999999999996'')
       (Decimal (False, asc ''0'', Some (asc ''48729999999999996''))) =
     Inr (Some (asc ''0.48729999999999996''))"
  by code_simp

lemma example_exponent:
  "dexp (Decimal (False, asc ''0'', Some (asc ''48729999999999996''))) = - 17"
  by code_simp

lemma example_guards:
  "asc ''0.48729999999999996'' \<noteq> []"
  "\<not> isdigit (asc ''0.48729999999999996'')"
  "asc ''0.48729999999999996'' \<noteq> asc ''0.4873''"
  by code_simp+

text \<open>
  Whether or not the float's text shows the run of nines, the \<open>try\<close> block returns the
  input: with the run, the input has 17 fractional digits and is quantized to 17 places;
  without it, the input is returned as it is.
\<close>

lemma example_try_body:
  "try_body fo (asc ''0.48729999999999996'')
       (False, asc ''0'', Some (asc ''48729999999999996'')) None =
     Inr (asc ''0.48729999999999996'')"
  by (simp add: try_body_def Let_def example_exponent example_orig_places is_total_column_def)

text \<open>
  C1. The docstring of \<open>fix_float_precision\<close> and the specification say that the string
  \<open>0.48729999999999996\<close>, with no column name, is normalized to \<open>0.4873\<close>. The code
  returns \<open>0.48729999999999996\<close>, the input, whatever the float operations compute: the
  example of the docstring does not hold.
\<close>

theorem C1_docstring_example_returned_unchanged:
  "fix_float_precision fo (asc ''0.48729999999999996'') None = Inr (asc ''0.48729999999999996'') \<and>
   fix_float_precision fo (asc ''0.48729999999999996'') None \<noteq> Inr (asc ''0.4873'')"
  by (simp add: fix_float_precision_def Let_def example_strip example_pattern example_try_body
      example_guards)

subsection \<open>Idempotence\<close>

text \<open>
  C6. Normalizing twice is claimed to give what normalizing once gives. In a total
  column the strings \<open>-0.0\<close> (the text of the float negative zero) and \<open>-0.0000000001\<close>
  are within \<open>1e-9\<close> of their value at two places, the negative zero \<open>-0.00\<close>, which is
  written \<open>-0\<close> once zeros and point are stripped; and \<open>-0\<close> is an integer, which the
  integer branch writes \<open>0\<close>. The second pass changes the result of the first.
\<close>

theorem C6_second_pass_changes_negative_zero:
  "fix_float_precision fo (asc ''-0.0'') (Some (asc ''total'')) = Inr (asc ''-0'') \<and>
   fix_float_precision fo (asc ''-0.0000000001'') (Some (asc ''total'')) = Inr (asc ''-0'') \<and>
   fix_float_precision fo (asc ''-0'') (Some (asc ''total'')) = Inr (asc ''0'') \<and>
   asc ''-0'' \<noteq> asc ''0''"
  by code_simp

subsection \<open>Digit strings\<close>

lemma strip_Nil: "strip [] = []"
  by (simp add: strip_def)

lemma takeWhile_digits: "list_all is_digit ds \<Longrightarrow> takeWhile is_digit ds = ds"
  by (induction ds) auto

lemma dropWhile_digits: "list_all is_digit ds \<Longrightarrow> dropWhile is_digit ds = []"
  by (induction ds) auto

lemma sign_not_space: "s = 43 \<or> s = 45 \<Longrightarrow> \<not> py_isspace s"
  by (auto simp: py_isspace_def)

lemma sign_not_digit: "s = 43 \<or> s = 45 \<Longrightarrow> \<not> is_digit s"
  by (auto simp: is_digit_def)

lemma float_pattern_signed:
  assumes "s = 43 \<or> s = 45" and "isdigit ds"
  shows "float_pattern (s # ds) = Some (s = 45, ds, None)"
  using assms sign_not_space[OF assms(1)]
  by (auto simp: float_pattern_def Let_def isdigit_def takeWhile_digits dropWhile_digits)

lemma try_body_integer:
  "try_body fo x (neg, ip, None) c =
     str_int \<lparr>dsign = neg, dcoef = nat_of_digits ip, dexp = 0\<rparr>"
  by (simp add: try_body_def Decimal_def Let_def)

lemma fix_signed:
  assumes "strip x0 = s # ds" and "s = 43 \<or> s = 45" and "isdigit ds"
  shows "fix_float_precision fo x0 c =
     (case str_int \<lparr>dsign = (s = 45), dcoef = nat_of_digits ds, dexp = 0\<rparr> of
        Inr r \<Rightarrow> Inr r
      | Inl e \<Rightarrow> fallback fo (s # ds))"
proof -
  from assms(1) have x: "x0 \<noteq> []" using strip_Nil by auto
  from assms(2) have nd: "\<not> isdigit (s # ds)" using sign_not_digit by (auto simp: isdigit_def)
  from assms(2,3) have fp: "float_pattern (s # ds) = Some (s = 45, ds, None)"
    by (rule float_pattern_signed)
  show ?thesis
    using assms(1) x nd fp by (simp add: fix_float_precision_def Let_def try_body_integer)
qed

text \<open>The number of digits of a number written without a leading zero.\<close>

lemma nat_of_digits_snoc: "nat_of_digits (ds @ [c]) = 10 * nat_of_digits ds + (c - 48)"
  by (simp add: nat_of_digits_def)

lemma ndigits_step: "0 < n \<Longrightarrow> d < 10 \<Longrightarrow> ndigits (10 * n + d) = Suc (ndigits n)"
proof -
  assume n: "0 < n" and d: "d < 10"
  then have "\<not> 10 * n + d < 10" by simp
  moreover from d have "(10 * n + d) div 10 = n" by simp
  ultimately have "show_nat (10 * n + d) = show_nat n @ [48 + (10 * n + d) mod 10]"
    by (subst show_nat.simps) simp
  then show ?thesis by (simp add: ndigits_def)
qed

lemma ndigits_small: "n < 10 \<Longrightarrow> ndigits n = 1"
  by (simp add: ndigits_def show_nat.simps)

lemma ndigits_of_digits:
  "ds \<noteq> [] \<Longrightarrow> list_all is_digit ds \<Longrightarrow> hd ds \<noteq> 48 \<Longrightarrow>
   0 < nat_of_digits ds \<and> ndigits (nat_of_digits ds) = length ds"
proof (induction ds rule: rev_induct)
  case Nil
  then show ?case by simp
next
  case (snoc c ds)
  from snoc.prems(2) have c: "48 \<le> c" "c \<le> 57" by (auto simp: is_digit_def)
  show ?case
  proof (cases "ds = []")
    case True
    with snoc.prems(3) c have "0 < c - 48" "c - 48 < 10" by auto
    with True show ?thesis by (simp add: nat_of_digits_def ndigits_small)
  next
    case False
    with snoc.prems have "list_all is_digit ds" "hd ds \<noteq> 48" by auto
    from snoc.IH[OF False this] have ih: "0 < nat_of_digits ds"
      "ndigits (nat_of_digits ds) = length ds" by auto
    from c have "c - 48 < 10" by auto
    with ih show ?thesis
      by (simp add: nat_of_digits_snoc ndigits_step)
  qed
qed

lemma ones_isdigit: "isdigit (replicate (Suc n) 49)"
  by (simp add: isdigit_def list_all_iff is_digit_def)

lemma ones_digits: "ndigits (nat_of_digits (replicate (Suc n) 49)) = Suc n"
proof -
  have "list_all is_digit (replicate (Suc n) 49)"
    by (simp add: list_all_iff is_digit_def)
  moreover have "hd (replicate (Suc n) 49) \<noteq> (48::nat)" by simp
  ultimately show ?thesis
    using ndigits_of_digits[of "replicate (Suc n) 49"] by simp
qed

lemma long_ones_isdigit: "isdigit long_ones"
  unfolding long_ones_def by (rule ones_isdigit)

lemma long_ones_big: "4300 < ndigits (nat_of_digits long_ones)"
  unfolding long_ones_def ones_digits by simp

lemma long_ones_last: "long_ones \<noteq> [] \<and> last long_ones = 49"
  unfolding long_ones_def by (simp del: replicate_Suc)

lemma strip_clean:
  assumes "s \<noteq> []" and "\<not> py_isspace (hd s)" and "\<not> py_isspace (last s)"
  shows "strip s = s"
proof -
  from assms(1,2) have a: "dropWhile py_isspace s = s"
    by (cases s) auto
  from assms(1,3) have b: "dropWhile py_isspace (rev s) = rev s"
    by (cases "rev s") (auto simp: last_rev[symmetric] simp del: last_rev)
  show ?thesis
    by (simp add: strip_def a b)
qed


lemma plus_ones_ends:
  "43 # long_ones \<noteq> [] \<and> \<not> py_isspace (hd (43 # long_ones)) \<and>
   \<not> py_isspace (last (43 # long_ones))"
  using long_ones_last by (simp add: py_isspace_def)

lemma inf_text: "strip_zeros (f_fmt inf_float 6 float_val) = asc ''inf''"
  by (simp add: inf_float_def strip_zeros_def asc_def)

text \<open>
  C4, as amended. A string whose trimmed form is all digits, with no sign, is returned
  trimmed and otherwise unchanged (\<open>x.isdigit()\<close>). A sign in front of the digits takes
  the string past that test to \<open>str(int(Decimal(x)))\<close>: as long as the number has no more
  than 4300 digits, the result is the integer written anew, without a plus sign, without
  leading zeros, and with the minus sign only when the number is not zero. Past 4300
  digits \<open>str\<close> raises, and the result is what the handler of the \<open>try\<close> block returns:
  the float of the string at six places.
\<close>

theorem C4_digits_unchanged_signed_rewritten:
  "(isdigit (strip x0) \<longrightarrow> fix_float_precision fo x0 c = Inr (strip x0)) \<and>
   (\<forall>s ds. strip x0 = s # ds \<and> (s = 43 \<or> s = 45) \<and> isdigit ds \<and>
           ndigits (nat_of_digits ds) \<le> 4300 \<longrightarrow>
      fix_float_precision fo x0 c =
        Inr ((if s = 45 \<and> nat_of_digits ds \<noteq> 0 then [45] else []) @ show_nat (nat_of_digits ds))) \<and>
   (\<forall>s ds. strip x0 = s # ds \<and> (s = 43 \<or> s = 45) \<and> isdigit ds \<and>
           4300 < ndigits (nat_of_digits ds) \<longrightarrow>
      fix_float_precision fo x0 c =
        Inr (case f_of_str fo (strip x0) of
               Some float_val \<Rightarrow> strip_zeros (f_fmt fo 6 float_val)
             | None \<Rightarrow> strip x0))"
proof (intro conjI allI impI)
  assume d: "isdigit (strip x0)"
  then have "strip x0 \<noteq> []" by (simp add: isdigit_def)
  then have "x0 \<noteq> []" using strip_Nil by auto
  with d show "fix_float_precision fo x0 c = Inr (strip x0)"
    by (simp add: fix_float_precision_def Let_def isdigit_def)
next
  fix s ds
  assume h: "strip x0 = s # ds \<and> (s = 43 \<or> s = 45) \<and> isdigit ds \<and>
             ndigits (nat_of_digits ds) \<le> 4300"
  then have "fix_float_precision fo x0 c =
     (case str_int \<lparr>dsign = (s = 45), dcoef = nat_of_digits ds, dexp = 0\<rparr> of
        Inr r \<Rightarrow> Inr r
      | Inl e \<Rightarrow> fallback fo (s # ds))"
    by (intro fix_signed) auto
  with h show "fix_float_precision fo x0 c =
        Inr ((if s = 45 \<and> nat_of_digits ds \<noteq> 0 then [45] else []) @ show_nat (nat_of_digits ds))"
    by (simp add: str_int_def int_max_str_digits_def Let_def)
next
  fix s ds
  assume h: "strip x0 = s # ds \<and> (s = 43 \<or> s = 45) \<and> isdigit ds \<and>
             4300 < ndigits (nat_of_digits ds)"
  then have "fix_float_precision fo x0 c =
     (case str_int \<lparr>dsign = (s = 45), dcoef = nat_of_digits ds, dexp = 0\<rparr> of
        Inr r \<Rightarrow> Inr r
      | Inl e \<Rightarrow> fallback fo (s # ds))"
    by (intro fix_signed) auto
  with h show "fix_float_precision fo x0 c =
        Inr (case f_of_str fo (strip x0) of
               Some float_val \<Rightarrow> strip_zeros (f_fmt fo 6 float_val)
             | None \<Rightarrow> strip x0)"
    by (simp add: str_int_def int_max_str_digits_def Let_def fallback_def split: option.splits)
qed

text \<open>
  The three cases at \<open>100\<close> between spaces, at \<open>-007\<close>, and at a plus sign followed by 4301
  ones, where the float is infinity.
\<close>

theorem C4_witness:
  "(\<forall>fo :: 'f float_ops.
     fix_float_precision fo (asc '' 100 '') None = Inr (asc ''100'') \<and>
     fix_float_precision fo (asc ''-007'') None = Inr (asc ''-7'')) \<and>
   fix_float_precision inf_float (43 # long_ones) None = Inr (asc ''inf'')"
proof (intro allI conjI)
  fix fo :: "'f float_ops"
  have a: "isdigit (strip (asc '' 100 ''))" by code_simp
  have a': "strip (asc '' 100 '') = asc ''100''" by code_simp
  from C4_digits_unchanged_signed_rewritten [of "asc '' 100 ''" fo None] a
  show "fix_float_precision fo (asc '' 100 '') None = Inr (asc ''100'')"
    by (simp add: a')
  have b: "strip (asc ''-007'') = 45 # asc ''007'' \<and> ((45::nat) = 43 \<or> (45::nat) = 45) \<and>
           isdigit (asc ''007'') \<and> ndigits (nat_of_digits (asc ''007'')) \<le> 4300"
    by code_simp
  have b': "(if (45::nat) = 45 \<and> nat_of_digits (asc ''007'') \<noteq> 0 then [45] else []) @
            show_nat (nat_of_digits (asc ''007'')) = asc ''-7''"
    by code_simp
  from C4_digits_unchanged_signed_rewritten [of "asc ''-007''" fo None] b
  have "fix_float_precision fo (asc ''-007'') None =
        Inr ((if (45::nat) = 45 \<and> nat_of_digits (asc ''007'') \<noteq> 0 then [45] else []) @
            show_nat (nat_of_digits (asc ''007'')))"
    by blast
  then show "fix_float_precision fo (asc ''-007'') None = Inr (asc ''-7'')"
    by (simp only: b')
next
  have st: "strip (43 # long_ones) = 43 # long_ones"
    using plus_ones_ends by (intro strip_clean) blast+
  have h: "strip (43 # long_ones) = 43 # long_ones \<and> ((43::nat) = 43 \<or> (43::nat) = 45) \<and>
           isdigit long_ones \<and> 4300 < ndigits (nat_of_digits long_ones)"
    using st long_ones_isdigit long_ones_big by simp
  from C4_digits_unchanged_signed_rewritten [of "43 # long_ones" inf_float None] h
  have "fix_float_precision inf_float (43 # long_ones) None =
        Inr (case f_of_str inf_float (strip (43 # long_ones)) of
               Some float_val \<Rightarrow> strip_zeros (f_fmt inf_float 6 float_val)
             | None \<Rightarrow> strip (43 # long_ones))"
    by blast
  moreover have "f_of_str inf_float (strip (43 # long_ones)) = Some ()"
    by (simp add: inf_float_def)
  ultimately show "fix_float_precision inf_float (43 # long_ones) None = Inr (asc ''inf'')"
    by (simp add: inf_text)
qed

text \<open>
  The claim as it was stated fails at its own examples \<open>+42\<close> and \<open>-007\<close>: both are
  already trimmed, and the results are \<open>42\<close> and \<open>-7\<close>.
\<close>

theorem C4_counterexample:
  "\<forall>fo :: 'f float_ops.
     fix_float_precision fo (asc ''+42'') None = Inr (asc ''42'') \<and>
     fix_float_precision fo (asc ''+42'') None \<noteq> Inr (strip (asc ''+42'')) \<and>
     fix_float_precision fo (asc ''-007'') None = Inr (asc ''-7'') \<and>
     fix_float_precision fo (asc ''-007'') None \<noteq> Inr (strip (asc ''-007''))"
  by (intro allI) code_simp

subsection \<open>No exception leaves the function\<close>



section \<open>Properties of the patterns\<close>

lemma startswith_single: "startswith s [a] \<longleftrightarrow> s \<noteq> [] \<and> hd s = a"
  by (cases s) (auto simp: startswith_def)

lemma scopes_differ: "scope_full_keyword \<noteq> scope_bracket_content"
  by (simp add: scope_full_keyword_def scope_bracket_content_def)

lemma rule_pattern_full:
  "rule_pattern nfkc scope_full_keyword r v = (fst r, snd r, clean_text nfkc (fst r), v)"
  using scopes_differ by (simp add: rule_pattern_def Let_def)

lemma rule_pattern_bracket:
  assumes "(opn, cls) \<in> set [(12304, 12305), (65288, 65289), (40, 41), (12308, 12309)]"
    and "startswith (clean_text nfkc (fst r)) [opn]" and "endswith (clean_text nfkc (fst r)) [cls]"
  shows "rule_pattern nfkc scope_bracket_content r v =
           (fst r, snd r, clean_text nfkc (fst r), [opn] @ v @ [cls])"
  using assms by (auto simp: rule_pattern_def Let_def startswith_single)

lemma rule_pattern_plain:
  assumes "\<forall>(opn, cls) \<in> set [(12304, 12305), (65288, 65289), (40, 41), (12308, 12309)].
             \<not> (startswith (clean_text nfkc (fst r)) [opn] \<and> endswith (clean_text nfkc (fst r)) [cls])"
  shows "rule_pattern nfkc scope_bracket_content r v = rule_pattern nfkc scope_full_keyword r v"
  using assms by (auto simp: rule_pattern_full) (auto simp: rule_pattern_def Let_def)

lemma precompute_map:
  "precompute_replace_patterns nfkc sc rules excel_row = Inr ps \<Longrightarrow>
     ps = map (\<lambda>r. rule_pattern nfkc sc r (the (map_of excel_row (snd r)))) rules \<and>
     (\<forall>r \<in> set rules. map_of excel_row (snd r) \<noteq> None)"
  by (induction rules arbitrary: ps) (auto simp: row_get_def split: option.splits sum.splits)

lemma precompute_present:
  "\<forall>r \<in> set rules. map_of excel_row (snd r) \<noteq> None \<Longrightarrow>
   precompute_replace_patterns nfkc sc rules excel_row =
     Inr (map (\<lambda>r. rule_pattern nfkc sc r (the (map_of excel_row (snd r)))) rules)"
  by (induction rules) (auto simp: row_get_def split: option.splits sum.splits)

text \<open>
  C7. With the scope "only the content of the brackets", the pattern of a rule whose
  cleaned keyword starts and ends with one of the pairs U+3010/U+3011, U+FF08/U+FF09,
  \<open>(\<close>/\<open>)\<close>, U+3014/U+3015 has the cleaned keyword as its search key and the opening
  bracket, the value of the row and the closing bracket as its replacement; the first
  character of the keyword fixes the pair, so the order of the tests does not matter.
  The pattern of any other keyword is the one the scope "the whole keyword" gives.
\<close>

theorem C7_bracket_content_patterns:
  assumes "precompute_replace_patterns nfkc scope_bracket_content rules excel_row = Inr ps"
    and "i < length rules" and "rules ! i = (old_text, col_name)"
  shows "\<exists>v. map_of excel_row col_name = Some v \<and>
     (\<forall>(opn, cls) \<in> set [(12304, 12305), (65288, 65289), (40, 41), (12308, 12309)].
        startswith (clean_text nfkc old_text) [opn] \<and> endswith (clean_text nfkc old_text) [cls] \<longrightarrow>
        ps ! i = (old_text, col_name, clean_text nfkc old_text, [opn] @ v @ [cls])) \<and>
     ((\<forall>(opn, cls) \<in> set [(12304, 12305), (65288, 65289), (40, 41), (12308, 12309)].
         \<not> (startswith (clean_text nfkc old_text) [opn] \<and> endswith (clean_text nfkc old_text) [cls])) \<longrightarrow>
        ps ! i = (old_text, col_name, clean_text nfkc old_text, v) \<and>
        (\<exists>full. precompute_replace_patterns nfkc scope_full_keyword rules excel_row = Inr full \<and>
                ps ! i = full ! i))"
proof -
  from precompute_map[OF assms(1)]
  have ps: "ps = map (\<lambda>r. rule_pattern nfkc scope_bracket_content r (the (map_of excel_row (snd r)))) rules"
    and pres: "\<forall>r \<in> set rules. map_of excel_row (snd r) \<noteq> None"
    by auto
  from assms(2,3) have mem: "(old_text, col_name) \<in> set rules"
    by (metis nth_mem)
  with pres obtain v where v: "map_of excel_row col_name = Some v" by fastforce
  have psi: "ps ! i = rule_pattern nfkc scope_bracket_content (old_text, col_name) v"
    using ps assms(2,3) v by simp
  have full: "precompute_replace_patterns nfkc scope_full_keyword rules excel_row =
      Inr (map (\<lambda>r. rule_pattern nfkc scope_full_keyword r (the (map_of excel_row (snd r)))) rules)"
    using precompute_present[OF pres] .
  have fulli: "map (\<lambda>r. rule_pattern nfkc scope_full_keyword r (the (map_of excel_row (snd r)))) rules ! i
      = rule_pattern nfkc scope_full_keyword (old_text, col_name) v"
    using assms(2,3) v by simp
  have a: "\<forall>(opn, cls) \<in> set [(12304, 12305), (65288, 65289), (40, 41), (12308, 12309)].
        startswith (clean_text nfkc old_text) [opn] \<and> endswith (clean_text nfkc old_text) [cls] \<longrightarrow>
        ps ! i = (old_text, col_name, clean_text nfkc old_text, [opn] @ v @ [cls])"
  proof (intro ballI, clarify)
    fix opn cls :: nat
    assume "(opn, cls) \<in> set [(12304, 12305), (65288, 65289), (40, 41), (12308, 12309)]"
      and "startswith (clean_text nfkc old_text) [opn]" and "endswith (clean_text nfkc old_text) [cls]"
    then show "ps ! i = (old_text, col_name, clean_text nfkc old_text, [opn] @ v @ [cls])"
      using rule_pattern_bracket[of opn cls nfkc "(old_text, col_name)" v] psi by simp
  qed
  have b: "(\<forall>(opn, cls) \<in> set [(12304, 12305), (65288, 65289), (40, 41), (12308, 12309)].
         \<not> (startswith (clean_text nfkc old_text) [opn] \<and> endswith (clean_text nfkc old_text) [cls])) \<longrightarrow>
        ps ! i = (old_text, col_name, clean_text nfkc old_text, v) \<and>
        (\<exists>full. precompute_replace_patterns nfkc scope_full_keyword rules excel_row = Inr full \<and>
                ps ! i = full ! i)"
  proof
    assume n: "\<forall>(opn, cls) \<in> set [(12304, 12305), (65288, 65289), (40, 41), (12308, 12309)].
         \<not> (startswith (clean_text nfkc old_text) [opn] \<and> endswith (clean_text nfkc old_text) [cls])"
    have e: "ps ! i = rule_pattern nfkc scope_full_keyword (old_text, col_name) v"
      using rule_pattern_plain[of nfkc "(old_text, col_name)" v] n psi by simp
    then show "ps ! i = (old_text, col_name, clean_text nfkc old_text, v) \<and>
        (\<exists>full. precompute_replace_patterns nfkc scope_full_keyword rules excel_row = Inr full \<and>
                ps ! i = full ! i)"
      using full fulli by (simp add: rule_pattern_full)
  qed
  from v a b show ?thesis by blast
qed

theorem C7_witness:
  "\<exists>ps. precompute_replace_patterns (\<lambda>t. t) scope_bracket_content
            [([12304, 22995, 21517, 12305], asc ''name''), (asc ''city'', asc ''town'')]
            [(asc ''name'', [24352, 19977]), (asc ''town'', asc ''Rome'')] = Inr ps \<and>
         ps ! 0 = ([12304, 22995, 21517, 12305], asc ''name'', [12304, 22995, 21517, 12305],
                   [12304, 24352, 19977, 12305]) \<and>
         ps ! 1 = (asc ''city'', asc ''town'', asc ''city'', asc ''Rome'')"
proof -
  let ?k = "[12304, 22995, 21517, 12305] :: ustr"
  let ?rules = "[(?k, asc ''name''), (asc ''city'', asc ''town'')]"
  let ?row = "[(asc ''name'', [24352, 19977]), (asc ''town'', asc ''Rome'')] :: row"
  obtain ps where p: "precompute_replace_patterns (\<lambda>t. t) scope_bracket_content ?rules ?row = Inr ps"
    by (simp add: row_get_def asc_def)
  have ck: "clean_text (\<lambda>t. t) ?k = ?k" "clean_text (\<lambda>t. t) (asc ''city'') = asc ''city''"
    by code_simp+
  have br: "startswith ?k [12304] \<and> endswith ?k [12305]"
    by code_simp
  have nb: "\<forall>(opn, cls) \<in> set [(12304, 12305), (65288, 65289), (40, 41), (12308, 12309)].
              \<not> (startswith (asc ''city'') [opn] \<and> endswith (asc ''city'') [cls])"
    by code_simp
  have v0: "map_of ?row (asc ''name'') = Some [24352, 19977]"
    and v1: "map_of ?row (asc ''town'') = Some (asc ''Rome'')"
    by code_simp+
  from C7_bracket_content_patterns [OF p, of 0 ?k "asc ''name''"] v0 br
  have r0: "ps ! 0 = (?k, asc ''name'', ?k, [12304] @ [24352, 19977] @ [12305])"
    unfolding ck by force
  from C7_bracket_content_patterns [OF p, of 1 "asc ''city''" "asc ''town''"] v1 nb
  have r1: "ps ! 1 = (asc ''city'', asc ''town'', asc ''city'', asc ''Rome'')"
    unfolding ck by force
  from p r0 r1 show ?thesis by auto
qed

section \<open>Properties of the paragraphs\<close>

lemma contains_Nil: "contains [] s"
  by (cases s) (auto simp: startswith_def)

lemma replace_nonempty_absent: "\<not> contains old s \<Longrightarrow> replace_nonempty old new s = s"
  by (induction s) auto

lemma py_replace_absent: "\<not> contains old s \<Longrightarrow> py_replace old new s = s"
  using contains_Nil by (auto simp: py_replace_def replace_nonempty_absent)

lemma apply_patterns_text:
  "fst (apply_patterns cl ps acc) =
     foldl (\<lambda>t (old_text, col_name, format_keyword, replacement). py_replace format_keyword replacement t)
       (fst acc) (filter (\<lambda>(old_text, col_name, format_keyword, replacement). contains format_keyword cl) ps)"
  by (induction cl ps acc rule: apply_patterns.induct) auto

lemma apply_patterns_append:
  "apply_patterns cl (ps1 @ ps2) acc = apply_patterns cl ps2 (apply_patterns cl ps1 acc)"
  by (induction cl ps1 acc rule: apply_patterns.induct) auto

lemma count_of_bump: "count_of (bump k n d) k' = (if k' = k then count_of d k + n else count_of d k')"
  by (induction d) (auto simp: count_of_def)

lemma apply_patterns_count:
  "count_of (snd (apply_patterns cl ps acc)) k =
     count_of (snd acc) k +
     length (filter (\<lambda>(old_text, col_name, format_keyword, replacement).
                       (old_text, col_name) = k \<and> contains format_keyword cl) ps)"
  by (induction cl ps acc rule: apply_patterns.induct) (auto simp: count_of_bump)

lemma apply_patterns_fst_indep:
  "fst (apply_patterns cl ps (t, d)) = fst (apply_patterns cl ps (t, d'))"
  by (simp add: apply_patterns_text)

lemma process_paragraph_match:
  assumes "has_keyword ps (clean_text nfkc (para_text par))"
  shows "process_paragraph nfkc par ps None =
           (set_runs (fst (apply_patterns (clean_text nfkc (para_text par)) ps (para_text par, []))) par,
            snd (apply_patterns (clean_text nfkc (para_text par)) ps (para_text par, [])))"
  using assms by (simp add: process_paragraph_def Let_def)

lemma has_keyword_mem:
  "(old_text, col_name, k, r) \<in> set ps \<Longrightarrow> contains k cl \<Longrightarrow> has_keyword ps cl"
  by (auto simp: has_keyword_def list_ex_iff)


lemma runs_simps [simp]:
  "runs [] = []"
  "runs (Run r # rest) = r # runs rest"
  "runs (Hyperlink t # rest) = runs rest"
  by (simp_all add: runs_def)

lemma links_simps [simp]:
  "links [] = []"
  "links (Run r # rest) = links rest"
  "links (Hyperlink t # rest) = t # links rest"
  by (simp_all add: links_def)

lemma runs_clear_runs: "runs (clear_runs par) = map (\<lambda>q. q\<lparr>run_text := []\<rparr>) (runs par)"
  by (induction par rule: clear_runs.induct) simp_all

lemma links_clear_runs: "links (clear_runs par) = links par"
  by (induction par rule: clear_runs.induct) simp_all

lemma runs_set_runs:
  "runs (set_runs t par) =
     (case runs par of [] \<Rightarrow> [] | r # rs \<Rightarrow> r\<lparr>run_text := t\<rparr> # map (\<lambda>q. q\<lparr>run_text := []\<rparr>) rs)"
  by (induction t par rule: set_runs.induct) (simp_all add: runs_clear_runs)

lemma links_set_runs: "links (set_runs t par) = links par"
  by (induction t par rule: set_runs.induct) (simp_all add: links_clear_runs)

lemma set_runs_no_run: "runs par = [] \<Longrightarrow> set_runs t par = par"
  by (induction t par rule: set_runs.induct) simp_all

text \<open>
  C8. When the cleaned text of a paragraph holds the search key of some pattern, the
  first run of the paragraph keeps its style and gets the new text, and every other run
  keeps its style and gets the empty text; the hyperlinks of the paragraph stay as they
  are, and a paragraph with no run is not changed. The new text is the text of the
  paragraph (\<open>paragraph.text\<close>) in which the patterns whose key is in the cleaned text
  have been replaced one after the other, each everywhere.
\<close>

theorem C8_first_run_gets_new_text:
  assumes "\<exists>p \<in> set ps. contains (fst (snd (snd p))) (clean_text nfkc (para_text par))"
  shows "runs (fst (process_paragraph nfkc par ps None)) =
     (case runs par of
        [] \<Rightarrow> []
      | r # rs \<Rightarrow>
          r\<lparr>run_text :=
               foldl (\<lambda>t (old_text, col_name, format_keyword, replacement).
                        py_replace format_keyword replacement t)
                 (para_text par)
                 (filter (\<lambda>(old_text, col_name, format_keyword, replacement).
                            contains format_keyword (clean_text nfkc (para_text par))) ps)\<rparr>
          # map (\<lambda>q. q\<lparr>run_text := []\<rparr>) rs) \<and>
     links (fst (process_paragraph nfkc par ps None)) = links par \<and>
     (runs par = [] \<longrightarrow> fst (process_paragraph nfkc par ps None) = par)"
proof -
  from assms have "has_keyword ps (clean_text nfkc (para_text par))"
    by (auto simp: has_keyword_def list_ex_iff case_prod_beta)
  then show ?thesis
    by (simp add: process_paragraph_def Let_def apply_patterns_text runs_set_runs links_set_runs
        set_runs_no_run)
qed

text \<open>
  The example of the specification: a plain run and a bold run, and the pattern that
  replaces the bracketed keyword. And a paragraph with a hyperlink between two runs: the
  text of the hyperlink is part of the new text of the first run, and the hyperlink
  keeps its own text.
\<close>

theorem C8_witness:
  "runs (fst (process_paragraph colon_nfkc
      [Run \<lparr>run_text = [22995, 21517, 65306], run_style = ''plain''\<rparr>,
       Run \<lparr>run_text = [12304, 22995, 21517, 12305], run_style = ''bold''\<rparr>]
      [([12304, 22995, 21517, 12305], asc ''name'', [12304, 22995, 21517, 12305],
        [12304, 26446, 22235, 12305])]
      None)) =
   [\<lparr>run_text = [22995, 21517, 65306, 12304, 26446, 22235, 12305], run_style = ''plain''\<rparr>,
    \<lparr>run_text = [], run_style = ''bold''\<rparr>] \<and>
   runs (fst (process_paragraph (\<lambda>t. t)
      [Run \<lparr>run_text = asc ''see N '', run_style = ''plain''\<rparr>, Hyperlink (asc ''link N''),
       Run \<lparr>run_text = asc '' end'', run_style = ''bold''\<rparr>]
      [(asc ''N'', asc ''name'', asc ''N'', asc ''Ann'')] None)) =
   [\<lparr>run_text = asc ''see Ann link Ann end'', run_style = ''plain''\<rparr>,
    \<lparr>run_text = [], run_style = ''bold''\<rparr>] \<and>
   links (fst (process_paragraph (\<lambda>t. t)
      [Run \<lparr>run_text = asc ''see N '', run_style = ''plain''\<rparr>, Hyperlink (asc ''link N''),
       Run \<lparr>run_text = asc '' end'', run_style = ''bold''\<rparr>]
      [(asc ''N'', asc ''name'', asc ''N'', asc ''Ann'')] None)) = [asc ''link N'']"
proof -
  let ?par = "[Run \<lparr>run_text = [22995, 21517, 65306], run_style = ''plain''\<rparr>,
       Run \<lparr>run_text = [12304, 22995, 21517, 12305], run_style = ''bold''\<rparr>]"
  let ?ps = "[([12304, 22995, 21517, 12305], asc ''name'', [12304, 22995, 21517, 12305],
               [12304, 26446, 22235, 12305])] :: pattern list"
  let ?par2 = "[Run \<lparr>run_text = asc ''see N '', run_style = ''plain''\<rparr>, Hyperlink (asc ''link N''),
       Run \<lparr>run_text = asc '' end'', run_style = ''bold''\<rparr>]"
  let ?ps2 = "[(asc ''N'', asc ''name'', asc ''N'', asc ''Ann'')] :: pattern list"
  have h: "\<exists>p \<in> set ?ps. contains (fst (snd (snd p))) (clean_text colon_nfkc (para_text ?par))"
    by code_simp
  have e: "(case runs ?par of
        [] \<Rightarrow> []
      | r # rs \<Rightarrow>
          r\<lparr>run_text :=
               foldl (\<lambda>t (old_text, col_name, format_keyword, replacement).
                        py_replace format_keyword replacement t)
                 (para_text ?par)
                 (filter (\<lambda>(old_text, col_name, format_keyword, replacement).
                            contains format_keyword (clean_text colon_nfkc (para_text ?par))) ?ps)\<rparr>
          # map (\<lambda>q. q\<lparr>run_text := []\<rparr>) rs) =
     [\<lparr>run_text = [22995, 21517, 65306, 12304, 26446, 22235, 12305], run_style = ''plain''\<rparr>,
      \<lparr>run_text = [], run_style = ''bold''\<rparr>]"
    by code_simp
  have h2: "\<exists>p \<in> set ?ps2. contains (fst (snd (snd p))) (clean_text (\<lambda>t. t) (para_text ?par2))"
    by code_simp
  have e2: "(case runs ?par2 of
        [] \<Rightarrow> []
      | r # rs \<Rightarrow>
          r\<lparr>run_text :=
               foldl (\<lambda>t (old_text, col_name, format_keyword, replacement).
                        py_replace format_keyword replacement t)
                 (para_text ?par2)
                 (filter (\<lambda>(old_text, col_name, format_keyword, replacement).
                            contains format_keyword (clean_text (\<lambda>t. t) (para_text ?par2))) ?ps2)\<rparr>
          # map (\<lambda>q. q\<lparr>run_text := []\<rparr>) rs) =
     [\<lparr>run_text = asc ''see Ann link Ann end'', run_style = ''plain''\<rparr>,
      \<lparr>run_text = [], run_style = ''bold''\<rparr>]"
    by code_simp
  have l2: "links ?par2 = [asc ''link N'']"
    by code_simp
  from C8_first_run_gets_new_text [OF h] e
  have a: "runs (fst (process_paragraph colon_nfkc ?par ?ps None)) =
     [\<lparr>run_text = [22995, 21517, 65306, 12304, 26446, 22235, 12305], run_style = ''plain''\<rparr>,
      \<lparr>run_text = [], run_style = ''bold''\<rparr>]"
    by simp
  from C8_first_run_gets_new_text [OF h2] e2 l2
  have b: "runs (fst (process_paragraph (\<lambda>t. t) ?par2 ?ps2 None)) =
     [\<lparr>run_text = asc ''see Ann link Ann end'', run_style = ''plain''\<rparr>,
      \<lparr>run_text = [], run_style = ''bold''\<rparr>]"
    "links (fst (process_paragraph (\<lambda>t. t) ?par2 ?ps2 None)) = [asc ''link N'']"
    by simp_all
  from a b show ?thesis by simp
qed

text \<open>
  C10, as amended. Take a pattern whose key is in the cleaned text of the paragraph
  and is not in the working text when the turn of the pattern comes, that is, in the
  raw text (\<open>paragraph.text\<close>) after the replacements of the patterns before it (the raw
  text itself for the first pattern). The paragraph is rewritten all the same: the
  first run gets the text that the other patterns alone produce, the other runs are
  emptied (\<open>set_runs\<close>), and the count of the pattern is one more than the other patterns
  alone give it.
\<close>

theorem C10_untouched_key_still_counted:
  assumes "contains k (clean_text nfkc (para_text par))"
    and "\<not> contains k (fst (apply_patterns (clean_text nfkc (para_text par)) ps1 (para_text par, [])))"
  shows "fst (process_paragraph nfkc par (ps1 @ (old_text, col_name, k, r) # ps2) None) =
           set_runs (fst (apply_patterns (clean_text nfkc (para_text par)) (ps1 @ ps2) (para_text par, []))) par \<and>
         count_of (snd (process_paragraph nfkc par (ps1 @ (old_text, col_name, k, r) # ps2) None)) (old_text, col_name) =
           count_of (snd (apply_patterns (clean_text nfkc (para_text par)) (ps1 @ ps2) (para_text par, []))) (old_text, col_name) + 1"
proof -
  let ?cl = "clean_text nfkc (para_text par)"
  let ?p = "(old_text, col_name, k, r)"
  have hk: "has_keyword (ps1 @ ?p # ps2) ?cl"
    using assms(1) has_keyword_mem[of old_text col_name k r "ps1 @ ?p # ps2" ?cl] by simp
  obtain w d where wd: "apply_patterns ?cl ps1 (para_text par, []) = (w, d)"
    by (cases "apply_patterns ?cl ps1 (para_text par, [])")
  with assms(2) have nw: "\<not> contains k w" by simp
  have step: "apply_patterns ?cl (ps1 @ ?p # ps2) (para_text par, []) =
              apply_patterns ?cl ps2 (w, bump (old_text, col_name) 1 d)"
    using assms(1) wd nw by (simp add: apply_patterns_append py_replace_absent)
  have without: "apply_patterns ?cl (ps1 @ ps2) (para_text par, []) = apply_patterns ?cl ps2 (w, d)"
    using wd by (simp add: apply_patterns_append)
  have t: "fst (apply_patterns ?cl (ps1 @ ?p # ps2) (para_text par, [])) =
           fst (apply_patterns ?cl (ps1 @ ps2) (para_text par, []))"
    unfolding step without by (rule apply_patterns_fst_indep)
  have c: "count_of (snd (apply_patterns ?cl (ps1 @ ?p # ps2) (para_text par, []))) (old_text, col_name) =
           count_of (snd (apply_patterns ?cl (ps1 @ ps2) (para_text par, []))) (old_text, col_name) + 1"
    unfolding step without by (simp add: apply_patterns_count count_of_bump)
  show ?thesis
    using t c by (simp add: process_paragraph_match[OF hk])
qed


theorem C10_witness:
  "fst (process_paragraph (\<lambda>t. t)
          [Run \<lparr>run_text = asc ''a  b'', run_style = ''plain''\<rparr>, Run \<lparr>run_text = asc ''c'', run_style = ''bold''\<rparr>]
          [(asc ''a b'', asc ''col'', asc ''a b'', asc ''Z'')] None) =
     [Run \<lparr>run_text = asc ''a  bc'', run_style = ''plain''\<rparr>, Run \<lparr>run_text = [], run_style = ''bold''\<rparr>] \<and>
   count_of (snd (process_paragraph (\<lambda>t. t)
          [Run \<lparr>run_text = asc ''a  b'', run_style = ''plain''\<rparr>, Run \<lparr>run_text = asc ''c'', run_style = ''bold''\<rparr>]
          [(asc ''a b'', asc ''col'', asc ''a b'', asc ''Z'')] None)) (asc ''a b'', asc ''col'') = 1"
proof -
  let ?par = "[Run \<lparr>run_text = asc ''a  b'', run_style = ''plain''\<rparr>, Run \<lparr>run_text = asc ''c'', run_style = ''bold''\<rparr>]"
  let ?cl = "clean_text (\<lambda>t. t) (para_text ?par)"
  have h1: "contains (asc ''a b'') ?cl" by code_simp
  have h2: "\<not> contains (asc ''a b'') (fst (apply_patterns ?cl [] (para_text ?par, [])))" by code_simp
  have e1: "set_runs (fst (apply_patterns ?cl ([] @ []) (para_text ?par, []))) ?par =
            [Run \<lparr>run_text = asc ''a  bc'', run_style = ''plain''\<rparr>, Run \<lparr>run_text = [], run_style = ''bold''\<rparr>]"
    by code_simp
  have e2: "count_of (snd (apply_patterns ?cl ([] @ []) (para_text ?par, []))) (asc ''a b'', asc ''col'') + 1 = 1"
    by code_simp
  from C10_untouched_key_still_counted [OF h1 h2, of "asc ''a b''" "asc ''col''" "asc ''Z''" "[]"]
  show ?thesis
    unfolding e1 e2 by simp
qed

text \<open>
  The claim as it was stated asks only that the raw text does not hold the key. That is
  not enough after another pattern: the raw text \<open>x  y\<close> (two spaces) has the cleaned
  text \<open>x y\<close>; the first pattern puts \<open>x y\<close> in the place of \<open>x\<close>, the working text is then
  \<open>x y  y\<close>, and the second pattern, whose key \<open>x y\<close> is in the cleaned text and not in the
  raw text, does replace an occurrence of its key: the first run gets \<open>Z  y\<close>, not the
  text \<open>x y  y\<close> in which no occurrence of that key is replaced.
\<close>

theorem C10_counterexample:
  "contains (asc ''x y'') (clean_text (\<lambda>t. t) (para_text [Run \<lparr>run_text = asc ''x  y'', run_style = ()\<rparr>])) \<and>
   \<not> contains (asc ''x y'') (para_text [Run \<lparr>run_text = asc ''x  y'', run_style = ()\<rparr>]) \<and>
   process_paragraph (\<lambda>t. t) [Run \<lparr>run_text = asc ''x  y'', run_style = ()\<rparr>]
     [(asc ''x'', asc ''a'', asc ''x'', asc ''x y''), (asc ''x y'', asc ''b'', asc ''x y'', asc ''Z'')] None =
     ([Run \<lparr>run_text = asc ''Z  y'', run_style = ()\<rparr>],
      [((asc ''x'', asc ''a''), 1), ((asc ''x y'', asc ''b''), 1)]) \<and>
   process_paragraph (\<lambda>t. t) [Run \<lparr>run_text = asc ''x  y'', run_style = ()\<rparr>]
     [(asc ''x'', asc ''a'', asc ''x'', asc ''x y'')] None =
     ([Run \<lparr>run_text = asc ''x y  y'', run_style = ()\<rparr>], [((asc ''x'', asc ''a''), 1)]) \<and>
   asc ''Z  y'' \<noteq> asc ''x y  y''"
  by code_simp

section \<open>Properties of the batch\<close>

lemma row_idx_make_file [simp]: "row_idx (make_file h sc rules wfl fc fp fs idx r) = idx"
  by (simp add: make_file_def Let_def)

lemma row_loop_valid:
  "\<forall>idx \<in> set idxs. 0 \<le> idx \<and> idx < int (df_len df) \<Longrightarrow>
   row_loop h sc rules wfl df fc fp fs idxs acc =
     ((fst acc @ map (\<lambda>idx. make_file h sc rules wfl fc fp fs idx (df_row df (nat idx))) idxs,
       snd acc @ map (\<lambda>idx. log_entry (make_file h sc rules wfl fc fp fs idx (df_row df (nat idx)))) idxs),
      None)"
  by (induction idxs arbitrary: acc) (auto simp: iloc_def Let_def)

lemma run_replace_valid:
  assumes "1 \<le> start_row"
  shows "run_replace h st wfl df start_row end_row fc fp fs =
     st\<lparr>replaced_files :=
           map (\<lambda>idx. make_file h (replace_scope st) (replace_rules st) wfl fc fp fs idx (df_row df (nat idx)))
             [start_row - 1 .. min end_row (int (df_len df)) - 1],
        replace_log :=
           map (\<lambda>idx. log_entry (make_file h (replace_scope st) (replace_rules st) wfl fc fp fs idx (df_row df (nat idx))))
             [start_row - 1 .. min end_row (int (df_len df)) - 1],
        replace_params :=
           Some (get_replace_params h st (Some wfl) (Some df) start_row end_row fc fp fs),
        is_replacing := False\<rparr>"
proof -
  have v: "\<forall>idx \<in> set [start_row - 1 .. min end_row (int (df_len df)) - 1]. 0 \<le> idx \<and> idx < int (df_len df)"
    using assms by auto
  show ?thesis
    by (simp add: run_replace_def Let_def row_loop_valid[OF v])
qed

lemma strict_upto: "sorted_wrt (<) [a .. b :: int]"
  by (simp add: strict_sorted_iff)

text \<open>
  C3. The row numbers of a run come from the two widgets, so they are between 1 and
  the number of rows of the sheet; the button runs the loop when the first is not
  after the last. The list of files then has \<open>end_row - start_row + 1\<close> files, the file
  at position \<open>i\<close> has the row number \<open>start_row - 1 + i\<close>, counted from \<open>0\<close>, and the row
  numbers increase strictly along the list.
\<close>

theorem C3_one_file_per_row_in_range:
  assumes "row_number_input df start_row" and "row_number_input df end_row"
    and "start_row \<le> end_row"
    and "replace_rules st \<noteq> []" and "\<not> is_replacing st"
  shows "(let files = replaced_files (replace_button h st (Some wfl) (Some df) start_row end_row fc fp fs)
          in int (length files) = end_row - start_row + 1 \<and>
             (\<forall>i < length files. row_idx (files ! i) = start_row - 1 + int i) \<and>
             sorted_wrt (<) (map row_idx files))"
proof -
  from assms(1,2) have b: "1 \<le> start_row" "end_row \<le> int (df_len df)"
    by (simp_all add: row_number_input_def)
  then have m: "min end_row (int (df_len df)) = end_row" by simp
  show ?thesis
    using assms(3,4,5) b(1)
    by (simp add: replace_button_def run_replace_valid Let_def m comp_def strict_upto)
qed

theorem C3_witness:
  "(let files = replaced_files
        (replace_button plain_host demo_session (Some demo_file) (Some demo_sheet) 2 3 [] [] [])
    in int (length files) = 3 - 2 + 1 \<and> row_idx (files ! 0) = 1 \<and> row_idx (files ! 1) = 2 \<and>
       sorted_wrt (<) (map row_idx files))"
proof -
  have h: "row_number_input demo_sheet 2" "row_number_input demo_sheet 3" "(2::int) \<le> 3"
    "replace_rules demo_session \<noteq> []" "\<not> is_replacing demo_session"
    by (simp_all add: demo_session_def row_number_input_def df_len_def demo_sheet_def)
  let ?files = "replaced_files
        (replace_button plain_host demo_session (Some demo_file) (Some demo_sheet) 2 3 [] [] [])"
  from C3_one_file_per_row_in_range [OF h, of plain_host demo_file "[]" "[]" "[]"]
  have a: "int (length ?files) = 3 - 2 + 1"
    and b: "\<forall>i < length ?files. row_idx (?files ! i) = 2 - 1 + int i"
    and c: "sorted_wrt (<) (map row_idx ?files)"
    unfolding Let_def by blast+
  from a have l: "length ?files = 2" by simp
  from b l have "row_idx (?files ! 0) = 1" "row_idx (?files ! 1) = 2"
    by simp_all
  with a c show ?thesis
    unfolding Let_def by simp
qed

lemma bump_keys: "fst ` set (bump k n d) = insert k (fst ` set d)"
  by (induction d) auto

lemma apply_patterns_keys:
  "fst ` set (snd (apply_patterns cl ps acc)) \<subseteq>
     fst ` set (snd acc) \<union> (\<lambda>p. (fst p, fst (snd p))) ` set ps"
  by (induction cl ps acc rule: apply_patterns.induct) (auto simp: bump_keys)

lemma process_paragraph_keys:
  "fst ` set (snd (process_paragraph nfkc par ps x)) \<subseteq> (\<lambda>p. (fst p, fst (snd p))) ` set ps"
  using apply_patterns_keys[of _ ps "(para_text par, [])"]
  by (auto simp: process_paragraph_def Let_def)

lemma merge_counts_keys: "fst ` set (merge_counts d pc) = fst ` set d \<union> fst ` set pc"
  unfolding merge_counts_def
  by (induction pc arbitrary: d) (auto simp: bump_keys)

lemma process_one_keys:
  "fst ` set d \<subseteq> K \<Longrightarrow> (\<lambda>p. (fst p, fst (snd p))) ` set ps \<subseteq> K \<Longrightarrow>
   fst ` set (snd (process_one nfkc ps par d)) \<subseteq> K"
  using process_paragraph_keys[of nfkc par ps None]
  by (auto simp: process_one_def Let_def merge_counts_keys)

lemma map_accum_invariant:
  "(\<And>x c. P c \<Longrightarrow> P (snd (f x c))) \<Longrightarrow> P c \<Longrightarrow> P (snd (map_accum f xs c))"
  by (induction xs arbitrary: c) (auto simp: Let_def)

lemma foldl_invariant:
  "(\<And>acc x. P acc \<Longrightarrow> P (f acc x)) \<Longrightarrow> P acc \<Longrightarrow> P (foldl f acc xs)"
  by (induction xs arbitrary: acc) auto

lemma process_paragraphs_keys:
  "fst ` set d \<subseteq> K \<Longrightarrow> (\<lambda>p. (fst p, fst (snd p))) ` set ps \<subseteq> K \<Longrightarrow>
   fst ` set (snd (process_paragraphs nfkc ps pars d)) \<subseteq> K"
  unfolding process_paragraphs_def
  by (rule map_accum_invariant[where P = "\<lambda>d. fst ` set d \<subseteq> K"])
     (rule process_one_keys, assumption+)

lemma process_cell_keys:
  "fst ` set (snd acc) \<subseteq> K \<Longrightarrow> (\<lambda>p. (fst p, fst (snd p))) ` set ps \<subseteq> K \<Longrightarrow>
   fst ` set (snd (process_cell nfkc ps acc i)) \<subseteq> K"
  using process_paragraphs_keys[of "snd acc" K ps nfkc "fst acc ! i"]
  by (simp add: process_cell_def Let_def)

lemma process_table_keys:
  assumes "fst ` set d \<subseteq> K" and "(\<lambda>p. (fst p, fst (snd p))) ` set ps \<subseteq> K"
  shows "fst ` set (snd (process_table nfkc ps t d)) \<subseteq> K"
proof -
  have "fst ` set (snd (foldl (process_cell nfkc ps) (tbl_cells t, d) (concat (tbl_rows t)))) \<subseteq> K"
    by (rule foldl_invariant[where P = "\<lambda>acc. fst ` set (snd acc) \<subseteq> K"])
       (rule process_cell_keys, assumption, rule assms(2), simp add: assms(1))
  then show ?thesis by (simp add: process_table_def Let_def)
qed

lemma process_tables_keys:
  assumes "fst ` set d \<subseteq> K" and "(\<lambda>p. (fst p, fst (snd p))) ` set ps \<subseteq> K"
  shows "fst ` set (snd (process_tables nfkc ps tbls d)) \<subseteq> K"
  unfolding process_tables_def
  by (rule map_accum_invariant[where P = "\<lambda>d. fst ` set d \<subseteq> K"])
     (rule process_table_keys, assumption, rule assms(2), rule assms(1))

lemma rule_pattern_key: "(fst (rule_pattern nfkc sc r v), fst (snd (rule_pattern nfkc sc r v))) = r"
  by (simp add: rule_pattern_def Let_def)

lemma precompute_keys:
  assumes a: "precompute_replace_patterns nfkc sc rules excel_row = Inr ps"
  shows "(\<lambda>p. (fst p, fst (snd p))) ` set ps \<subseteq> set rules"
proof
  fix k
  assume "k \<in> (\<lambda>p. (fst p, fst (snd p))) ` set ps"
  then obtain p where p: "p \<in> set ps" "k = (fst p, fst (snd p))" by blast
  from precompute_map[OF a] p(1) obtain r where
    "r \<in> set rules" "p = rule_pattern nfkc sc r (the (map_of excel_row (snd r)))" by auto
  with p(2) show "k \<in> set rules" by (simp add: rule_pattern_key)
qed

lemma precompute_all_present:
  "\<forall>r \<in> set rules. map_of excel_row (snd r) \<noteq> None \<Longrightarrow>
   \<exists>ps. precompute_replace_patterns nfkc sc rules excel_row = Inr ps"
  by (induction rules) (auto simp: row_get_def split: option.splits sum.splits)

text \<open>The exception is the \<open>KeyError\<close> of the first rule, in their order, whose column is missing.\<close>

lemma precompute_missing:
  "\<exists>r \<in> set rules. map_of excel_row (snd r) = None \<Longrightarrow>
   \<exists>c. c \<in> snd ` set rules \<and> map_of excel_row c = None \<and>
       precompute_replace_patterns nfkc sc rules excel_row = Inl (KeyError c)"
proof (induction rules)
  case Nil
  then show ?case by simp
next
  case (Cons r rules)
  show ?case
  proof (cases "map_of excel_row (snd r)")
    case None
    then show ?thesis by (auto simp: row_get_def)
  next
    case (Some v)
    with Cons.prems have "\<exists>r \<in> set rules. map_of excel_row (snd r) = None" by auto
    from Cons.IH[OF this] obtain c where "c \<in> snd ` set rules" "map_of excel_row c = None"
      "precompute_replace_patterns nfkc sc rules excel_row = Inl (KeyError c)" by blast
    with Some show ?thesis by (auto simp: row_get_def)
  qed
qed

lemma log_lines_present:
  "\<forall>kv \<in> set d. map_of excel_row (snd (fst kv)) \<noteq> None \<Longrightarrow> \<exists>ls. log_lines excel_row d = Inr ls"
  by (induction d) (auto simp: row_get_def split: option.splits sum.splits)

lemma replace_try_missing:
  assumes "h_load h (wf_bytes wfl) \<noteq> None" and "\<exists>r \<in> set rules. map_of excel_row (snd r) = None"
  shows "\<exists>c. c \<in> snd ` set rules \<and> map_of excel_row c = None \<and>
           replace_try h sc wfl excel_row rules = Inl (KeyError c)"
proof -
  from precompute_missing[OF assms(2), of "h_nfkc h" sc] obtain c where
    c: "c \<in> snd ` set rules" "map_of excel_row c = None"
      "precompute_replace_patterns (h_nfkc h) sc rules excel_row = Inl (KeyError c)" by blast
  with assms(1) have "replace_try h sc wfl excel_row rules = Inl (KeyError c)"
    by (auto simp: replace_try_def)
  with c show ?thesis by blast
qed

lemma replace_try_present:
  assumes "h_load h (wf_bytes wfl) \<noteq> None" and "\<forall>r \<in> set rules. map_of excel_row (snd r) \<noteq> None"
  shows "\<exists>doc' lg. replace_try h sc wfl excel_row rules = Inr (h_save h doc', lg)"
proof -
  from assms(1) obtain doc where doc: "h_load h (wf_bytes wfl) = Some doc" by auto
  from precompute_all_present[OF assms(2), of "h_nfkc h" sc] obtain ps where
    ps: "precompute_replace_patterns (h_nfkc h) sc rules excel_row = Inr ps" by blast
  let ?r1 = "process_paragraphs (h_nfkc h) ps (paragraphs doc) []"
  let ?r2 = "process_tables (h_nfkc h) ps (tables doc) (snd ?r1)"
  have k: "(\<lambda>p. (fst p, fst (snd p))) ` set ps \<subseteq> set rules"
    using precompute_keys[OF ps] .
  have k1: "fst ` set (snd ?r1) \<subseteq> set rules"
    by (rule process_paragraphs_keys[OF _ k]) simp
  have k2: "fst ` set (snd ?r2) \<subseteq> set rules"
    by (rule process_tables_keys[OF k1 k])
  have "\<forall>kv \<in> set (snd ?r2). map_of excel_row (snd (fst kv)) \<noteq> None"
  proof
    fix kv assume "kv \<in> set (snd ?r2)"
    then have "fst kv \<in> set rules" using k2 by auto
    with assms(2) show "map_of excel_row (snd (fst kv)) \<noteq> None" by blast
  qed
  from log_lines_present[OF this] obtain ls where ls: "log_lines excel_row (snd ?r2) = Inr ls" by blast
  show ?thesis
    using doc ps ls by (auto simp: replace_try_def Let_def)
qed

text \<open>Every row of a sheet has the columns of the sheet, and no other.\<close>

lemma df_row_columns:
  assumes "rectangular df" and "i < df_len df"
  shows "map_of (df_row df i) c = None \<longleftrightarrow> c \<notin> set (df_columns df)"
proof -
  from assms have "length (df_columns df) = length (df_values df ! i)"
    by (simp add: rectangular_def df_len_def)
  then show ?thesis
    by (simp add: df_row_def map_of_zip_is_None)
qed

text \<open>
  C9, as amended. All rows of a sheet have the same columns, so a rule whose column
  is missing from one row is missing from every row: a rule can name such a column when
  the rules are read from a file, which does not compare them with the sheet. In a run
  whose range starts at row 1 or later, with a template that can be read, take the row
  at any position \<open>i\<close> of the range. The list of files has one file for every row of the
  range and the run ends by storing its parameters, which it does only when no exception
  has left the loop. When a rule names a column that the sheet does not have, the file
  of the row has no bytes and its log is the failure message with the \<open>KeyError\<close> of such
  a column: every row of the range fails, each on its own, and none has a normal file.
  When the sheet has the column of every rule, the \<open>try\<close> block does not raise for the
  row: its file holds the bytes of a written document and the log of the replacements.
\<close>

theorem C9_missing_column_fails_every_row:
  assumes "1 \<le> start_row" and "rectangular df" and "h_load h (wf_bytes wfl) \<noteq> None"
    and "int i < min end_row (int (df_len df)) - start_row + 1"
  shows "(let st' = run_replace h st wfl df start_row end_row fc fp fs;
              f = replaced_files st' ! i
          in length (replaced_files st') = nat (min end_row (int (df_len df)) - start_row + 1) \<and>
             replace_params st' = Some (get_replace_params h st (Some wfl) (Some df) start_row end_row fc fp fs) \<and>
             row_idx f = start_row - 1 + int i \<and>
             ((\<exists>r \<in> set (replace_rules st). snd r \<notin> set (df_columns df)) \<longrightarrow>
                data f = [] \<and>
                (\<exists>c. c \<in> snd ` set (replace_rules st) \<and> c \<notin> set (df_columns df) \<and>
                     log f = msg_failed @ h_exc_text h (KeyError c))) \<and>
             ((\<forall>r \<in> set (replace_rules st). snd r \<in> set (df_columns df)) \<longrightarrow>
                (\<exists>doc'. data f = h_save h doc') \<and>
                replace_try h (replace_scope st) wfl (df_row df (nat (start_row - 1 + int i)))
                  (replace_rules st) = Inr (data f, log f)))"
proof -
  let ?idxs = "[start_row - 1 .. min end_row (int (df_len df)) - 1]"
  let ?row = "df_row df (nat (start_row - 1 + int i))"
  let ?f = "make_file h (replace_scope st) (replace_rules st) wfl fc fp fs (start_row - 1 + int i) ?row"
  have len: "i < length ?idxs" using assms(1,4) by simp
  have nth: "?idxs ! i = start_row - 1 + int i" using assms(4) by (intro nth_upto) arith
  have inr: "nat (start_row - 1 + int i) < df_len df" using assms(1,4) by arith
  have cols: "\<And>c. map_of ?row c = None \<longleftrightarrow> c \<notin> set (df_columns df)"
    by (rule df_row_columns[OF assms(2) inr])
  have f: "replaced_files (run_replace h st wfl df start_row end_row fc fp fs) ! i = ?f"
  proof -
    have "map (\<lambda>idx. make_file h (replace_scope st) (replace_rules st) wfl fc fp fs idx (df_row df (nat idx))) ?idxs ! i =
          make_file h (replace_scope st) (replace_rules st) wfl fc fp fs (?idxs ! i) (df_row df (nat (?idxs ! i)))"
      using len by (rule nth_map)
    then show ?thesis
      unfolding nth by (simp add: run_replace_valid[OF assms(1)])
  qed
  have miss: "(\<exists>r \<in> set (replace_rules st). snd r \<notin> set (df_columns df)) \<longrightarrow>
                data ?f = [] \<and>
                (\<exists>c. c \<in> snd ` set (replace_rules st) \<and> c \<notin> set (df_columns df) \<and>
                     log ?f = msg_failed @ h_exc_text h (KeyError c))"
  proof
    assume "\<exists>r \<in> set (replace_rules st). snd r \<notin> set (df_columns df)"
    then have "\<exists>r \<in> set (replace_rules st). map_of ?row (snd r) = None"
      using cols by blast
    from replace_try_missing[OF assms(3) this, of "replace_scope st"]
    obtain c where c: "c \<in> snd ` set (replace_rules st)" "map_of ?row c = None"
      "replace_try h (replace_scope st) wfl ?row (replace_rules st) = Inl (KeyError c)" by blast
    from c(2) have "c \<notin> set (df_columns df)" using cols by blast
    with c(1,3) show "data ?f = [] \<and>
                (\<exists>c. c \<in> snd ` set (replace_rules st) \<and> c \<notin> set (df_columns df) \<and>
                     log ?f = msg_failed @ h_exc_text h (KeyError c))"
      by (auto simp: make_file_def Let_def replace_word_with_format_def)
  qed
  have pres: "(\<forall>r \<in> set (replace_rules st). snd r \<in> set (df_columns df)) \<longrightarrow>
                (\<exists>doc'. data ?f = h_save h doc') \<and>
                replace_try h (replace_scope st) wfl ?row (replace_rules st) = Inr (data ?f, log ?f)"
  proof
    assume "\<forall>r \<in> set (replace_rules st). snd r \<in> set (df_columns df)"
    then have "\<forall>r \<in> set (replace_rules st). map_of ?row (snd r) \<noteq> None"
      using cols by blast
    from replace_try_present[OF assms(3) this, of "replace_scope st"]
    obtain doc' lg where "replace_try h (replace_scope st) wfl ?row (replace_rules st) = Inr (h_save h doc', lg)"
      by blast
    then show "(\<exists>doc'. data ?f = h_save h doc') \<and>
                replace_try h (replace_scope st) wfl ?row (replace_rules st) = Inr (data ?f, log ?f)"
      by (auto simp: make_file_def Let_def replace_word_with_format_def)
  qed
  have l: "length (replaced_files (run_replace h st wfl df start_row end_row fc fp fs)) =
           nat (min end_row (int (df_len df)) - start_row + 1)"
    by (simp add: run_replace_valid[OF assms(1)])
  have p: "replace_params (run_replace h st wfl df start_row end_row fc fp fs) =
           Some (get_replace_params h st (Some wfl) (Some df) start_row end_row fc fp fs)"
    by (simp add: run_replace_valid[OF assms(1)])
  show ?thesis
    unfolding Let_def f
    using l p miss pres by simp
qed

text \<open>
  With the sheet that has the column \<open>name\<close>, the three rows give three normal files;
  with the sheet that does not have it, the first row fails (and so does the second).
\<close>

theorem C9_witness:
  "(let files = replaced_files (run_replace plain_host demo_session demo_file demo_sheet 1 3 [] [] [])
    in length files = 3 \<and> data (files ! 1) = asc ''Dear Bob'') \<and>
   (let files = replaced_files (run_replace plain_host demo_session demo_file other_sheet 1 2 [] [] [])
    in length files = 2 \<and> data (files ! 0) = [] \<and> log (files ! 0) = msg_failed @ asc ''name'')"
proof -
  let ?st = "run_replace plain_host demo_session demo_file demo_sheet 1 3 [] [] []"
  let ?so = "run_replace plain_host demo_session demo_file other_sheet 1 2 [] [] []"
  have s: "(1::int) \<le> 1" by simp
  have r: "rectangular demo_sheet" "rectangular other_sheet"
    by (simp_all add: rectangular_def demo_sheet_def other_sheet_def)
  have n: "int (df_len demo_sheet) = 3" "int (df_len other_sheet) = 2"
    by (simp_all add: df_len_def demo_sheet_def other_sheet_def)
  have ld: "h_load plain_host (wf_bytes demo_file) \<noteq> None"
    by (simp add: plain_host_def)
  have i1: "int 1 < min 3 (int (df_len demo_sheet)) - 1 + 1" unfolding n by simp
  have i0: "int 0 < min 2 (int (df_len other_sheet)) - 1 + 1" unfolding n by simp
  have pres: "\<forall>r \<in> set (replace_rules demo_session). snd r \<in> set (df_columns demo_sheet)"
    by code_simp
  have miss: "\<exists>r \<in> set (replace_rules demo_session). snd r \<notin> set (df_columns other_sheet)"
    by code_simp
  from C9_missing_column_fails_every_row [OF s r(1) ld i1, of demo_session "[]" "[]" "[]"] pres
  have a: "length (replaced_files ?st) = 3"
    and b: "replace_try plain_host (replace_scope demo_session) demo_file
              (df_row demo_sheet (nat (1 - 1 + int 1))) (replace_rules demo_session) =
            Inr (data (replaced_files ?st ! 1), log (replaced_files ?st ! 1))"
    unfolding Let_def n by simp_all
  have b': "replace_try plain_host (replace_scope demo_session) demo_file
              (df_row demo_sheet (nat (1 - 1 + int 1))) (replace_rules demo_session) =
            Inr (asc ''Dear Bob'', msg_replaced @ asc ''N -> Bob (1'' @ [27425, 41])"
    by code_simp
  from b b' have c: "data (replaced_files ?st ! 1) = asc ''Dear Bob''"
    by simp
  from C9_missing_column_fails_every_row [OF s r(2) ld i0, of demo_session "[]" "[]" "[]"] miss
  have d: "length (replaced_files ?so) = 2" "data (replaced_files ?so ! 0) = []"
    unfolding Let_def n by simp_all
  have e: "log (replaced_files ?so ! 0) = msg_failed @ asc ''name''"
    by code_simp
  from a c d e show ?thesis
    unfolding Let_def by simp
qed

text \<open>
  The claim as it was stated has one row fail and every other row of the range give a
  normal file. With the rule on the column \<open>name\<close> and the sheet of two rows that has no
  such column, the first row fails and the other row is not normal: its file has no
  bytes either, and its log is the same failure.
\<close>

theorem C9_counterexample:
  "(let files = replaced_files (run_replace plain_host demo_session demo_file other_sheet 1 2 [] [] [])
    in length files = 2 \<and>
       data (files ! 0) = [] \<and> log (files ! 0) = msg_failed @ asc ''name'' \<and>
       data (files ! 1) = [] \<and> log (files ! 1) = msg_failed @ asc ''name'')"
  by code_simp

text \<open>
  C2. The parameters that decide whether a new replacement is needed are claimed to
  cover the scope. \<open>get_replace_params\<close> does not read the scope: two sessions that
  differ in the scope alone have the same parameters, and \<open>need_replace\<close> has the same
  value in both, so a change of scope after a run leaves the files of the run in place
  as if they were current.
\<close>

theorem C2_scope_not_in_params:
  "get_replace_params h (st\<lparr>replace_scope := scope_bracket_content\<rparr>) wfl df start_row end_row fc fp fs =
   get_replace_params h (st\<lparr>replace_scope := scope_full_keyword\<rparr>) wfl df start_row end_row fc fp fs \<and>
   scope_bracket_content \<noteq> scope_full_keyword \<and>
   need_replace (st\<lparr>replace_scope := scope_bracket_content\<rparr>)
      (get_replace_params h (st\<lparr>replace_scope := scope_bracket_content\<rparr>) wfl df start_row end_row fc fp fs) =
   need_replace (st\<lparr>replace_scope := scope_full_keyword\<rparr>)
      (get_replace_params h (st\<lparr>replace_scope := scope_full_keyword\<rparr>) wfl df start_row end_row fc fp fs)"
  by (simp add: get_replace_params_def need_replace_def scope_full_keyword_def scope_bracket_content_def)

end
